theory Spec2Isabelle
  imports Complex_Main "HOL-Library.Log_Nat" "HOL-Library.Multiset"
begin

section \<open>JavaScript numbers and strings\<close>

text \<open>
  Counts, ratings, thresholds and timestamps are JavaScript numbers that hold integers far
  below \<open>2^53\<close>; they are modelled as \<^typ>\<open>int\<close>, on which \<open>+\<close>, \<open>-\<close> and the comparisons of
  the source are exact. A division or a product with a fractional operand is a binary64
  operation: the exact rational result rounded to the nearest double, ties to even. The
  function \<open>fl\<close> is that rounding on the normal range of binary64 (no overflow to
  \<open>Infinity\<close>, no subnormals: every quotient below has a magnitude between \<open>2^-1022\<close> and
  \<open>2^1024\<close> or is zero).
\<close>

definition pow2 :: "int \<Rightarrow> rat" where
  "pow2 e = (if 0 \<le> e then 2 ^ nat e else 1 / 2 ^ nat (- e))"

definition ilog2 :: "rat \<Rightarrow> int" where
  \<comment> \<open>the exponent \<open>e\<close> with \<open>2^e \<le> x < 2^(e+1)\<close>, for \<open>x > 0\<close>\<close>
  "ilog2 x = (case quotient_of x of (p, q) \<Rightarrow>
     (let e = bitlen p - bitlen q in if pow2 e \<le> x then e else e - 1))"

definition round_half_even :: "rat \<Rightarrow> int" where
  "round_half_even x = (let f = \<lfloor>x\<rfloor>; d = x - of_int f in
     if d < 1 / 2 then f else if 1 / 2 < d then f + 1 else if even f then f else f + 1)"

definition fl :: "rat \<Rightarrow> rat" where
  "fl x = (if x = 0 then 0 else
     (let e = ilog2 \<bar>x\<bar> - 52; m = round_half_even (\<bar>x\<bar> / pow2 e)
      in sgn x * of_int m * pow2 e))"

definition js_div :: "rat \<Rightarrow> rat \<Rightarrow> rat" where
  \<comment> \<open>\<open>a / b\<close> on doubles, for \<open>b \<noteq> 0\<close>\<close>
  "js_div a b = fl (a / b)"

definition js_mul :: "rat \<Rightarrow> rat \<Rightarrow> rat" where
  "js_mul a b = fl (a * b)"

definition Math_round :: "rat \<Rightarrow> int" where
  \<comment> \<open>\<open>Math.round\<close>: the nearest integer, a tie going up\<close>
  "Math_round x = \<lfloor>x + 1 / 2\<rfloor>"

text \<open>Decimal rendering of an integer, as a template literal \<open>`${n}`\<close> prints it.\<close>

definition digit_char :: "nat \<Rightarrow> char" where
  "digit_char d = ''0123456789'' ! d"

fun nat_to_string :: "nat \<Rightarrow> string" where
  "nat_to_string n = (if n < 10 then [digit_char n] else nat_to_string (n div 10) @ [digit_char (n mod 10)])"

declare nat_to_string.simps [simp del]

definition num_to_string :: "int \<Rightarrow> string" where
  "num_to_string i = (if i < 0 then CHR ''-'' # nat_to_string (nat (- i)) else nat_to_string (nat i))"

text \<open>\<open>a || b\<close> on a string that may be \<open>null\<close> or \<open>undefined\<close>: the empty string is falsy.\<close>

definition str_or :: "string option \<Rightarrow> string \<Rightarrow> string" where
  "str_or a b = (case a of None \<Rightarrow> b | Some s \<Rightarrow> if s = [] then b else s)"

text \<open>The decimal digits, and the value of a string of them.\<close>

definition is_digit :: "char \<Rightarrow> bool" where
  "is_digit c = (48 \<le> (of_char c :: nat) \<and> (of_char c :: nat) \<le> 57)"

definition parseInt :: "string \<Rightarrow> int" where
  \<comment> \<open>\<open>parseInt(ds, 10)\<close> on a string of digits\<close>
  "parseInt ds = foldl (\<lambda>n c. 10 * n + (int (of_char c) - 48)) 0 ds"


section \<open>Milestones\<close>

record club_milestone =
  threshold :: int
  reward :: string
  icon :: string

definition CLUB_MILESTONES :: "club_milestone list" where
  "CLUB_MILESTONES =
    [\<lparr>threshold = 800, reward = ''Chocolate Treat'', icon = [CHR 0xF0, CHR 0x9F, CHR 0x8D, CHR 0xAB]\<rparr>,
     \<lparr>threshold = 1200, reward = ''Cake Cutting'', icon = [CHR 0xF0, CHR 0x9F, CHR 0x8E, CHR 0x82]\<rparr>,
     \<lparr>threshold = 2000, reward = ''Burger Treat'', icon = [CHR 0xF0, CHR 0x9F, CHR 0x8D, CHR 0x94]\<rparr>,
     \<lparr>threshold = 4000, reward = ''T-Shirts Distribution'', icon = [CHR 0xF0, CHR 0x9F, CHR 0x91, CHR 0x95]\<rparr>,
     \<lparr>threshold = 7000, reward = ''Swag Bag'', icon = [CHR 0xF0, CHR 0x9F, CHR 0x8E, CHR 0x92]\<rparr>,
     \<lparr>threshold = 10000, reward = ''Trophy + Grand Party'', icon = [CHR 0xF0, CHR 0x9F, CHR 0x8F, CHR 0x86]\<rparr>]"

text \<open>
  A club milestone state, as \<open>calculateClubMilestones\<close> returns it and as the cache keeps
  it. \<open>date\<close> is an ISO timestamp or \<open>null\<close> (\<open>None\<close>).
\<close>

record milestone_state =
  ms_threshold :: int
  ms_reward :: string
  ms_icon :: string
  achieved :: bool
  date :: "string option"
  progress :: rat

text \<open>\<open>existingMilestones.find(m => m.threshold === t)\<close>: the first entry with that threshold.\<close>

definition find_threshold :: "int \<Rightarrow> milestone_state list \<Rightarrow> milestone_state option" where
  "find_threshold t ms = find (\<lambda>m. ms_threshold m = t) ms"

text \<open>
  One tier of the \<open>map\<close> in \<open>calculateClubMilestones\<close>. \<open>now\<close> is what
  \<open>new Date().toISOString()\<close> returns when this tier evaluates it. \<open>existing?.date\<close> is
  \<open>undefined\<close> when no entry is found and then falls through \<open>||\<close> like \<open>null\<close>.
\<close>

definition club_tier :: "string \<Rightarrow> int \<Rightarrow> milestone_state list \<Rightarrow> club_milestone \<Rightarrow> milestone_state" where
  "club_tier now totalProblemsSolved existingMilestones milestone =
     (let existing = find_threshold (threshold milestone) existingMilestones;
          ach = (totalProblemsSolved \<ge> threshold milestone)
      in \<lparr>ms_threshold = threshold milestone,
          ms_reward = reward milestone,
          ms_icon = icon milestone,
          achieved = ach,
          date = (if ach then Some (str_or (case existing of None \<Rightarrow> None | Some e \<Rightarrow> date e) now) else None),
          progress = min 100 (js_mul (js_div (of_int totalProblemsSolved) (of_int (threshold milestone))) 100)\<rparr>)"

text \<open>
  The clock is read once per tier, so it is a function of the tier's position in
  \<open>CLUB_MILESTONES\<close>.
\<close>

definition calculateClubMilestones :: "(nat \<Rightarrow> string) \<Rightarrow> int \<Rightarrow> milestone_state list \<Rightarrow> milestone_state list" where
  "calculateClubMilestones clock totalProblemsSolved existingMilestones =
     map (\<lambda>(i, milestone). club_tier (clock i) totalProblemsSolved existingMilestones milestone)
       (enumerate 0 CLUB_MILESTONES)"

definition getNewlyAchievedMilestones :: "milestone_state list \<Rightarrow> milestone_state list \<Rightarrow> milestone_state list" where
  "getNewlyAchievedMilestones oldMilestones newMilestones =
     filter (\<lambda>newM. achieved newM \<and>
               (case find_threshold (ms_threshold newM) oldMilestones of
                  None \<Rightarrow> True | Some oldM \<Rightarrow> \<not> achieved oldM))
       newMilestones"

text \<open>Individual tiers. \<open>max\<close> is a number or \<open>Infinity\<close>.\<close>

datatype bound = Fin int | Infinity

fun le_bound :: "int \<Rightarrow> bound \<Rightarrow> bool" where
  "le_bound x (Fin b) = (x \<le> b)"
| "le_bound x Infinity = True"

record individual_milestone =
  level :: string
  im_min :: int
  im_max :: bound
  im_reward :: string
  badge :: string
  color :: string

definition INDIVIDUAL_MILESTONES :: "individual_milestone list" where
  "INDIVIDUAL_MILESTONES =
    [\<lparr>level = ''Beginner'', im_min = 0, im_max = Fin 49, im_reward = ''Keep Going!'',
      badge = [CHR 0xF0, CHR 0x9F, CHR 0x8C, CHR 0xB1], color = ''#6b7280''\<rparr>,
     \<lparr>level = ''Bronze Solver'', im_min = 50, im_max = Fin 149, im_reward = ''Certificate'',
      badge = [CHR 0xF0, CHR 0x9F, CHR 0xA5, CHR 0x89], color = ''#cd7f32''\<rparr>,
     \<lparr>level = ''Silver Solver'', im_min = 150, im_max = Fin 299, im_reward = ''Club Recognition'',
      badge = [CHR 0xF0, CHR 0x9F, CHR 0xA5, CHR 0x88], color = ''#c0c0c0''\<rparr>,
     \<lparr>level = ''Gold Solver'', im_min = 300, im_max = Fin 599, im_reward = ''Special Badge'',
      badge = [CHR 0xF0, CHR 0x9F, CHR 0xA5, CHR 0x87], color = ''#ffd700''\<rparr>,
     \<lparr>level = ''Platinum Solver'', im_min = 600, im_max = Fin 999, im_reward = ''Elite Status'',
      badge = [CHR 0xF0, CHR 0x9F, CHR 0x92, CHR 0x8E], color = ''#00d4ff''\<rparr>,
     \<lparr>level = ''Diamond Solver'', im_min = 1000, im_max = Fin 1499, im_reward = ''Diamond Badge'',
      badge = [CHR 0xF0, CHR 0x9F, CHR 0x92, CHR 0xA0], color = ''#00bfff''\<rparr>,
     \<lparr>level = ''Master Solver '' @ [CHR 0xE2, CHR 0xAD, CHR 0x90], im_min = 1500, im_max = Infinity,
      im_reward = ''Gold Star + Featured'', badge = [CHR 0xE2, CHR 0xAD, CHR 0x90], color = ''#9b59b6''\<rparr>]"

definition in_range :: "int \<Rightarrow> individual_milestone \<Rightarrow> bool" where
  "in_range problemsSolved m = (problemsSolved \<ge> im_min m \<and> le_bound problemsSolved (im_max m))"

record member_milestone =
  mm_level :: string
  mm_badge :: string
  mm_reward :: string
  mm_problemsSolved :: int
  problemsRequired :: bound
  mm_progress :: rat
  nextReward :: string

text \<open>
  \<open>calculateMemberMilestone\<close>; \<open>None\<close> is the \<open>null\<close> it returns when no range matches.
  \<open>nextMilestone?.min || milestone.max\<close> takes \<open>milestone.max\<close> also when the next
  \<open>min\<close> is \<open>0\<close>. The divisor is positive whenever a range matched, since then
  \<open>milestone.min \<le> problemsSolved < nextMilestone.min\<close>.
\<close>

definition calculateMemberMilestone :: "int \<Rightarrow> member_milestone option" where
  "calculateMemberMilestone problemsSolved =
     (case find (in_range problemsSolved) INDIVIDUAL_MILESTONES of
        None \<Rightarrow> None
      | Some milestone \<Rightarrow>
          (let nextMilestone = find (\<lambda>m. im_min m > problemsSolved) INDIVIDUAL_MILESTONES;
               prog = (case nextMilestone of
                         Some n \<Rightarrow> js_mul (js_div (of_int (problemsSolved - im_min milestone))
                                              (of_int (im_min n - im_min milestone))) 100
                       | None \<Rightarrow> 100)
           in Some \<lparr>mm_level = level milestone,
                    mm_badge = badge milestone,
                    mm_reward = im_reward milestone,
                    mm_problemsSolved = problemsSolved,
                    problemsRequired = (case nextMilestone of
                                          Some n \<Rightarrow> if im_min n \<noteq> 0 then Fin (im_min n) else im_max milestone
                                        | None \<Rightarrow> im_max milestone),
                    mm_progress = min 100 (max 0 prog),
                    nextReward = str_or (map_option im_reward nextMilestone) ''Max Level Reached''\<rparr>))"

definition getNewlyAchievedMemberMilestone :: "int \<Rightarrow> int \<Rightarrow> member_milestone option" where
  "getNewlyAchievedMemberMilestone oldProblems newProblems =
     (case (calculateMemberMilestone oldProblems, calculateMemberMilestone newProblems) of
        (Some oldMilestone, Some newMilestone) \<Rightarrow>
          if mm_level oldMilestone \<noteq> mm_level newMilestone then Some newMilestone else None
      | _ \<Rightarrow> None)"


section \<open>Activity log\<close>

text \<open>
  An activity is a JavaScript object whose keys depend on the kind of event, and
  \<open>activityExists\<close> reads it by computed key, so objects are modelled as such: a list of
  own properties in insertion order. \<open>obj[key]\<close> is the value stored under exactly that
  key string, \<open>undefined\<close> when there is none; a key that contains a dot is one key, not a
  path into a nested object.
\<close>

datatype jsval = JUndefined | JNum int | JStr string | JObj "(string \<times> jsval) list"

type_synonym jsobj = "(string \<times> jsval) list"

definition obj_get :: "jsobj \<Rightarrow> string \<Rightarrow> jsval" where
  "obj_get obj key = (case map_of obj key of None \<Rightarrow> JUndefined | Some v \<Rightarrow> v)"

text \<open>
  Writing a property: an existing key keeps its position and takes the new value, a new
  key goes to the end. An object literal with a spread is a sequence of such writes.
\<close>

fun obj_put :: "jsobj \<Rightarrow> string \<times> jsval \<Rightarrow> jsobj" where
  "obj_put [] kv = [kv]"
| "obj_put ((k', v') # rest) kv = (if k' = fst kv then (k', snd kv) # rest else (k', v') # obj_put rest kv)"

definition obj_literal :: "(string \<times> jsval) list \<Rightarrow> jsobj" where
  "obj_literal kvs = foldl obj_put [] kvs"

text \<open>
  \<open>a === b\<close>. Two objects are equal only when they are the same reference; no caller of
  \<open>activityExists\<close> passes a criteria object that shares a nested object with a stored
  activity, so two object operands compare unequal here.
\<close>

fun strict_eq :: "jsval \<Rightarrow> jsval \<Rightarrow> bool" where
  "strict_eq JUndefined JUndefined = True"
| "strict_eq (JNum a) (JNum b) = (a = b)"
| "strict_eq (JStr a) (JStr b) = (a = b)"
| "strict_eq _ _ = False"

definition CLUB_MILESTONE :: string where "CLUB_MILESTONE = ''club_milestone''"
definition MEMBER_JOIN :: string where "MEMBER_JOIN = ''member_join''"
definition MEMBER_MILESTONE :: string where "MEMBER_MILESTONE = ''member_milestone''"
definition CONTEST_STREAK :: string where "CONTEST_STREAK = ''contest_streak''"

definition MAX_ACTIVITIES :: nat where "MAX_ACTIVITIES = 50"

text \<open>
  \<open>logActivity\<close>. The pair \<open>stamp\<close> holds what the environment supplies: the generated id
  (\<open>Date.now()\<close> and a random suffix) and the ISO timestamp. The module's \<open>activities\<close>
  array is passed in and returned; the new activity goes to the front and the array is cut
  to its first \<open>MAX_ACTIVITIES\<close> entries.
\<close>

definition logActivity :: "string \<times> string \<Rightarrow> string \<Rightarrow> jsobj \<Rightarrow> jsobj list \<Rightarrow> jsobj \<times> jsobj list" where
  "logActivity stamp type data activities =
     (let activity = obj_literal ([(''id'', JStr (fst stamp)), (''type'', JStr type),
                                   (''timestamp'', JStr (snd stamp))] @ data);
          activities1 = activity # activities
      in (activity, if length activities1 > MAX_ACTIVITIES then take MAX_ACTIVITIES activities1 else activities1))"

definition logClubMilestone :: "string \<times> string \<Rightarrow> milestone_state \<Rightarrow> jsobj list \<Rightarrow> jsobj \<times> jsobj list" where
  "logClubMilestone stamp milestone activities =
     logActivity stamp CLUB_MILESTONE
       [(''message'', JStr (''Club reached '' @ num_to_string (ms_threshold milestone) @ '' rating milestone'')),
        (''icon'', JStr ''trophy''),
        (''iconClass'', JStr ''milestone-icon''),
        (''milestone'', JObj [(''threshold'', JNum (ms_threshold milestone)),
                              (''reward'', JStr (ms_reward milestone)),
                              (''icon'', JStr (ms_icon milestone))])]
       activities"

definition logMemberMilestone :: "string \<times> string \<Rightarrow> string \<Rightarrow> jsobj list \<Rightarrow> jsobj \<times> jsobj list" where
  "logMemberMilestone stamp lvl activities =
     logActivity stamp MEMBER_MILESTONE
       [(''message'', JStr (''A member reached '' @ lvl)),
        (''icon'', JStr ''target''),
        (''iconClass'', JStr ''achievement-icon''),
        (''level'', JStr lvl)]
       activities"

definition activityExists :: "jsobj list \<Rightarrow> string \<Rightarrow> jsobj \<Rightarrow> bool" where
  "activityExists activities type criteria =
     list_ex (\<lambda>activity.
        if \<not> strict_eq (obj_get activity ''type'') (JStr type) then False
        else list_all (\<lambda>key. strict_eq (obj_get activity key) (obj_get criteria key)) (map fst criteria))
       activities"


text \<open>An activity announces club milestone \<open>t\<close>: a club-milestone entry whose nested
  \<open>milestone\<close> object has that threshold.\<close>

definition announces :: "int \<Rightarrow> jsobj \<Rightarrow> bool" where
  "announces t activity =
     (obj_get activity ''type'' = JStr CLUB_MILESTONE \<and>
      (case obj_get activity ''milestone'' of JObj m \<Rightarrow> obj_get m ''threshold'' = JNum t | _ \<Rightarrow> False))"


section \<open>Club aggregation\<close>

text \<open>
  A member record of the sync service. \<open>id\<close> and \<open>name\<close> may be missing (\<open>None\<close>);
  \<open>problemsSolved\<close> may be missing, a number or a value of another type; \<open>ratings\<close> may be
  missing, and each of its three numbers may be.
\<close>

datatype solved_field = Absent | Count int | NonNumber

record handles =
  codeforces :: "string option"
  leetcode :: "string option"
  codechef :: "string option"

record ratings =
  r_codeforces :: "int option"
  r_leetcode :: "int option"
  r_codechef :: "int option"

record member =
  m_id :: "string option"
  m_name :: "string option"
  m_email :: string
  m_role :: string
  joinDate :: string
  m_handles :: handles
  problemsSolved :: solved_field
  m_ratings :: "ratings option"

definition truthy_str :: "string option \<Rightarrow> bool" where
  "truthy_str s = (case s of None \<Rightarrow> False | Some v \<Rightarrow> v \<noteq> [])"

text \<open>
  \<open>validateMemberData\<close>. Every member the sync hands over is an object, so the first
  test of the source (\<open>!member || typeof member !== 'object'\<close>) never fires.
\<close>

definition validateMemberData :: "member \<Rightarrow> bool" where
  "validateMemberData m =
     (if \<not> truthy_str (m_id m) \<or> \<not> truthy_str (m_name m) then False
      else (case problemsSolved m of
              Absent \<Rightarrow> True
            | NonNumber \<Rightarrow> False
            | Count n \<Rightarrow> \<not> n < 0))"

record platform_stat =
  ps_count :: nat
  ps_avg :: int

record club_stats =
  totalMembers :: nat
  totalProblemsSolved :: int
  averageRating :: int
  ps_codeforces :: platform_stat
  ps_leetcode :: platform_stat
  ps_codechef :: platform_stat

text \<open>
  \<open>aggregateClubStats\<close> on an array of member objects: the body of its \<open>forEach\<close> is
  \<open>add_solved\<close> and three times \<open>push_rating\<close>; a rating of \<open>0\<close> is falsy and not pushed.
\<close>

definition add_solved :: "int \<Rightarrow> member \<Rightarrow> int" where
  "add_solved totalProblems m =
     (case problemsSolved m of Count n \<Rightarrow> if n \<ge> 0 then totalProblems + n else totalProblems
                             | _ \<Rightarrow> totalProblems)"

definition push_rating :: "(ratings \<Rightarrow> int option) \<Rightarrow> int list \<Rightarrow> member \<Rightarrow> int list" where
  "push_rating sel acc m =
     (case m_ratings m of
        None \<Rightarrow> acc
      | Some r \<Rightarrow> (case sel r of None \<Rightarrow> acc | Some v \<Rightarrow> if v \<noteq> 0 then acc @ [v] else acc))"

definition average :: "int list \<Rightarrow> int" where
  "average xs = (if length xs > 0
                 then Math_round (js_div (of_int (foldl (+) 0 xs)) (of_nat (length xs)))
                 else 0)"

definition aggregateClubStats :: "member list \<Rightarrow> club_stats" where
  "aggregateClubStats members =
     (if length members = 0 then
        \<lparr>totalMembers = 0, totalProblemsSolved = 0, averageRating = 0,
         ps_codeforces = \<lparr>ps_count = 0, ps_avg = 0\<rparr>,
         ps_leetcode = \<lparr>ps_count = 0, ps_avg = 0\<rparr>,
         ps_codechef = \<lparr>ps_count = 0, ps_avg = 0\<rparr>\<rparr>
      else
        (let totalProblems = foldl add_solved 0 members;
             cfRatings = foldl (push_rating r_codeforces) [] members;
             lcProblems = foldl (push_rating r_leetcode) [] members;
             ccRatings = foldl (push_rating r_codechef) [] members;
             avgCF = average cfRatings;
             avgLC = average lcProblems;
             avgCC = average ccRatings
         in \<lparr>totalMembers = length members,
             totalProblemsSolved = totalProblems,
             averageRating = Math_round (js_div (of_int (avgCF + avgCC)) 2),
             ps_codeforces = \<lparr>ps_count = length cfRatings, ps_avg = avgCF\<rparr>,
             ps_leetcode = \<lparr>ps_count = length lcProblems, ps_avg = avgLC\<rparr>,
             ps_codechef = \<lparr>ps_count = length ccRatings, ps_avg = avgCC\<rparr>\<rparr>))"


section \<open>Sync service\<close>

datatype error = Error string

text \<open>
  The database handle of the sync service, by what its two calls do: reading
  \<open>members\<close> resolves to the stored object (\<open>None\<close> is \<open>null\<close>; its entries are listed in
  the order \<open>Object.keys\<close> gives) or rejects, and writing \<open>clubData\<close> resolves or rejects.
  The service may run with no database at all.
\<close>

record database =
  members_read :: "error + (string \<times> member) list option"
  clubData_write :: "error option"

definition sample_member :: "string \<Rightarrow> string \<Rightarrow> string \<Rightarrow> string \<Rightarrow> string \<Rightarrow> string \<times> string \<times> string \<Rightarrow> int \<Rightarrow> int \<times> int \<times> int \<Rightarrow> member" where
  "sample_member i n e r j h p rs =
     \<lparr>m_id = Some i, m_name = Some n, m_email = e, m_role = r, joinDate = j,
      m_handles = \<lparr>codeforces = Some (fst h), leetcode = Some (fst (snd h)), codechef = Some (snd (snd h))\<rparr>,
      problemsSolved = Count p,
      m_ratings = Some \<lparr>r_codeforces = Some (fst rs), r_leetcode = Some (fst (snd rs)),
                        r_codechef = Some (snd (snd rs))\<rparr>\<rparr>"

definition getSampleMembers :: "member list" where
  "getSampleMembers =
    [sample_member ''1'' ''Aryan Chauhan'' ''aryan@tsap.club'' ''admin'' ''2025-09-01''
       (''sharkie1604'', ''aryan_cf'', ''aryan_cc'') 450 (1450, 234, 1500),
     sample_member ''2'' ''Ravi Sharma'' ''ravi@tsap.club'' ''admin'' ''2025-09-01''
       (''ravisharma-09'', ''ravi_lc'', ''ravi_cc'') 380 (1380, 189, 1420),
     sample_member ''3'' ''Ankur Bhadauria'' ''ankur@tsap.club'' ''admin'' ''2025-09-01''
       (''LOKI_29'', ''ankur_lc'', ''ankur_cc'') 520 (1520, 267, 1580),
     sample_member ''4'' ''Jothin Kumar'' ''jothin@tsap.club'' ''member'' ''2025-10-01''
       (''jothin_cf'', ''jothin_lc'', ''jothin_cc'') 290 (1290, 156, 1350),
     sample_member ''5'' ''Sarah Miller'' ''sarah@tsap.club'' ''member'' ''2025-10-15''
       (''sarah_cf'', ''sarah_lc'', ''sarah_cc'') 198 (1150, 198, 1200),
     sample_member ''6'' ''David Kim'' ''david@tsap.club'' ''member'' ''2025-11-01''
       (''david_cf'', ''david_lc'', ''david_cc'') 223 (1340, 223, 1380)]"

text \<open>
  \<open>fetchAllMembers\<close>: without a database, or when the read rejects, the sample members.
  Each stored entry becomes \<open>{id, ...entry}\<close>: the key is the id unless the entry has an
  \<open>id\<close> of its own.
\<close>

definition with_id :: "string \<times> member \<Rightarrow> member" where
  "with_id km = (case m_id (snd km) of None \<Rightarrow> (snd km)\<lparr>m_id := Some (fst km)\<rparr> | Some own \<Rightarrow> snd km)"

definition fetchAllMembers :: "database option \<Rightarrow> member list" where
  "fetchAllMembers db =
     (case db of
        None \<Rightarrow> getSampleMembers
      | Some d \<Rightarrow>
          (case members_read d of
             Inl err \<Rightarrow> getSampleMembers
           | Inr val \<Rightarrow> map with_id (case val of None \<Rightarrow> [] | Some membersObj \<Rightarrow> membersObj)))"

record club_data = club_stats +
  milestones :: "milestone_state list"
  contestStreak :: int
  lastSyncTime :: string

text \<open>\<open>saveClubData\<close>: nothing to do without a database; a rejected write is rethrown.\<close>

definition saveClubData :: "database option \<Rightarrow> club_data \<Rightarrow> error + unit" where
  "saveClubData db clubData =
     (case db of
        None \<Rightarrow> Inr ()
      | Some d \<Rightarrow> (case clubData_write d of None \<Rightarrow> Inr () | Some err \<Rightarrow> Inl err))"

text \<open>
  The module state of the sync service, together with the \<open>activities\<close> array of the
  activity logger that it writes to.
\<close>

record sync_state =
  activities :: "jsobj list"
  cachedClubData :: "club_data option"
  lastSyncMs :: "int option"

text \<open>
  What one run of \<open>performFullSync\<close> takes from its environment: the clock read by each
  milestone tier, the id and timestamp of the activity logged in the \<open>k\<close>-th iteration of
  the \<open>forEach\<close>, and the ISO time and the millisecond time of the snapshot.
\<close>

record sync_env =
  milestone_clock :: "nat \<Rightarrow> string"
  log_stamp :: "nat \<Rightarrow> string \<times> string"
  sync_iso :: string
  sync_ms :: int

text \<open>Step 7: the \<open>forEach\<close> over the newly achieved milestones.\<close>

fun log_new_milestones :: "(nat \<Rightarrow> string \<times> string) \<Rightarrow> nat \<Rightarrow> milestone_state list \<Rightarrow> jsobj list \<Rightarrow> jsobj list" where
  "log_new_milestones stamp k [] acts = acts"
| "log_new_milestones stamp k (milestone # rest) acts =
     (if \<not> activityExists acts CLUB_MILESTONE [(''milestone.threshold'', JNum (ms_threshold milestone))]
      then log_new_milestones stamp (Suc k) rest (snd (logClubMilestone (stamp k) milestone acts))
      else log_new_milestones stamp (Suc k) rest acts)"

text \<open>The \<open>catch\<close> block: the cached snapshot if there is one, otherwise the error again.
  Steps 1 to 9 of the \<open>try\<close> block raise nothing (\<open>fetchAllMembers\<close> catches its own read
  error), so the one statement that can reach the \<open>catch\<close> is \<open>await saveClubData\<close>, after
  the cache has been assigned.\<close>

definition sync_failed :: "error \<Rightarrow> sync_state \<Rightarrow> (error + club_data) \<times> sync_state" where
  "sync_failed err st =
     (case cachedClubData st of Some cached \<Rightarrow> (Inr cached, st) | None \<Rightarrow> (Inl err, st))"

definition performFullSync :: "sync_env \<Rightarrow> database option \<Rightarrow> sync_state \<Rightarrow> (error + club_data) \<times> sync_state" where
  "performFullSync env db st =
     (let members = fetchAllMembers db;
          validMembers = filter validateMemberData members;
          clubStats = aggregateClubStats validMembers;
          previousMilestones = (case cachedClubData st of None \<Rightarrow> [] | Some cached \<Rightarrow> milestones cached);
          newMilestones = calculateClubMilestones (milestone_clock env)
                            (totalProblemsSolved clubStats) previousMilestones;
          newlyAchieved = getNewlyAchievedMilestones previousMilestones newMilestones;
          acts = log_new_milestones (log_stamp env) 0 newlyAchieved (activities st);
          clubData = club_stats.extend clubStats
                       (club_data.fields newMilestones 30 (sync_iso env));
          st1 = st\<lparr>activities := acts, cachedClubData := Some clubData, lastSyncMs := Some (sync_ms env)\<rparr>
      in (case saveClubData db clubData of
            Inl err \<Rightarrow> sync_failed err st1
          | Inr ok \<Rightarrow> (Inr clubData, st1)))"

definition initial_sync_state :: sync_state where
  "initial_sync_state = \<lparr>activities = [], cachedClubData = None, lastSyncMs = None\<rparr>"


text \<open>Names for two values of a run: step 4's previous milestones and the total that
  steps 1 to 3 compute from the database.\<close>

definition previousMilestones :: "sync_state \<Rightarrow> milestone_state list" where
  "previousMilestones st = (case cachedClubData st of None \<Rightarrow> [] | Some cached \<Rightarrow> milestones cached)"

definition club_total :: "database option \<Rightarrow> int" where
  "club_total db = totalProblemsSolved (aggregateClubStats (filter validateMemberData (fetchAllMembers db)))"

text \<open>
  The number of announcements of a threshold in the log, and the state of affairs the
  sync keeps while totals do not decrease: no threshold is announced twice, nothing is
  announced before a snapshot is cached, the cached milestones were computed from the
  cached total, and every announced threshold is at most that total.
\<close>

definition announcements :: "int \<Rightarrow> sync_state \<Rightarrow> nat" where
  "announcements t st = length (filter (announces t) (activities st))"

definition announced_once :: "sync_state \<Rightarrow> bool" where
  "announced_once st =
     ((\<forall>t. announcements t st \<le> 1) \<and>
      (case cachedClubData st of
         None \<Rightarrow> \<forall>t. announcements t st = 0
       | Some cd \<Rightarrow>
           (\<exists>clk prev. milestones cd = calculateClubMilestones clk (totalProblemsSolved cd) prev) \<and>
           (\<forall>t. 0 < announcements t st \<longrightarrow> t \<le> totalProblemsSolved cd)))"

text \<open>A series of syncs, each with its environment and the database as it is then.\<close>

definition sync_all :: "(sync_env \<times> database option) list \<Rightarrow> sync_state \<Rightarrow> sync_state" where
  "sync_all runs st = foldl (\<lambda>st (env, db). snd (performFullSync env db st)) st runs"


section \<open>Codeforces statistics\<close>

text \<open>
  \<open>toDateKey\<close>: the UTC calendar date of a time in seconds, as \<open>YYYY-MM-DD\<close>. The getters
  of \<open>Date\<close> are the proleptic Gregorian calendar on the day number
  \<open>floor (ms / 86400000)\<close>; a time value beyond \<open>8.64e15\<close> milliseconds is an invalid
  date, whose getters return \<open>NaN\<close>.
\<close>

definition civil_from_days :: "int \<Rightarrow> int \<times> int \<times> int" where
  "civil_from_days days =
     (let z = days + 719468;
          era = z div 146097;
          doe = z mod 146097;
          yoe = (doe - doe div 1460 + doe div 36524 - doe div 146096) div 365;
          doy = doe - (365 * yoe + yoe div 4 - yoe div 100);
          mp = (5 * doy + 2) div 153;
          d = doy - (153 * mp + 2) div 5 + 1;
          m = (if mp < 10 then mp + 3 else mp - 9);
          y = yoe + era * 400 + (if m \<le> 2 then 1 else 0)
      in (y, m, d))"

definition padStart2 :: "string \<Rightarrow> string" where
  "padStart2 s = (if length s < 2 then replicate (2 - length s) CHR ''0'' @ s else s)"

definition toDateKey :: "int \<Rightarrow> string" where
  "toDateKey timestampSeconds =
     (if \<bar>timestampSeconds * 1000\<bar> > 8640000000000000 then ''NaN-NaN-NaN''
      else (case civil_from_days ((timestampSeconds * 1000) div 86400000) of
              (year, month, day) \<Rightarrow>
                num_to_string year @ ''-'' @ padStart2 (num_to_string month) @ ''-'' @ padStart2 (num_to_string day)))"

text \<open>
  A problem as the Codeforces API describes it, in a submission or in the problem set.
  Each field the code tests for presence is optional.
\<close>

record cf_problem =
  contestId :: "int option"
  p_index :: "string option"
  p_name :: "string option"
  p_rating :: "int option"
  p_tags :: "string list option"

record submission =
  sub_problem :: "cf_problem option"
  verdict :: string
  creationTimeSeconds :: int

record rating_update =
  contestName :: string
  newRating :: int
  ratingUpdateTimeSeconds :: int

record rating_entry =
  re_contestName :: string
  re_rating :: int
  timeSeconds :: int

record solved_problem =
  sp_id :: string
  sp_title :: "string option"
  sp_rating :: "int option"
  sp_tags :: "string list"

text \<open>A value in a template literal: \<open>undefined\<close> prints as the word.\<close>

definition show_num :: "int option \<Rightarrow> string" where
  "show_num n = (case n of None \<Rightarrow> ''undefined'' | Some v \<Rightarrow> num_to_string v)"

definition show_str :: "string option \<Rightarrow> string" where
  "show_str s = (case s of None \<Rightarrow> ''undefined'' | Some v \<Rightarrow> v)"

text \<open>
  \<open>`${problem.contestId || "custom"}-${problem.index || problem.name}`\<close>: a contest id of
  \<open>0\<close> and an empty index are falsy.
\<close>

definition problemKey :: "cf_problem \<Rightarrow> string" where
  "problemKey problem =
     (case contestId problem of None \<Rightarrow> ''custom'' | Some c \<Rightarrow> if c = 0 then ''custom'' else num_to_string c)
     @ ''-'' @
     (case p_index problem of
        None \<Rightarrow> show_str (p_name problem)
      | Some i \<Rightarrow> if i = [] then show_str (p_name problem) else i)"

text \<open>
  Counters kept in plain objects (\<open>tagCounts\<close>, \<open>activityCalendar\<close>,
  \<open>contestFrequencyMap\<close>). An object literal \<open>{}\<close> inherits from \<open>Object.prototype\<close>, so
  reading \<open>obj[key]\<close> for a key that is not an own property finds the property of that
  name on the prototype, if there is one. \<open>proto_keys\<close> are the names that
  \<open>Object.prototype\<close> defines: eleven methods and the accessor \<open>__proto__\<close>.
\<close>

definition proto_keys :: "string list" where
  "proto_keys =
     [''constructor'', ''__defineGetter__'', ''__defineSetter__'', ''hasOwnProperty'',
      ''__lookupGetter__'', ''__lookupSetter__'', ''isPrototypeOf'', ''propertyIsEnumerable'',
      ''toString'', ''valueOf'', ''__proto__'', ''toLocaleString'']"

text \<open>
  The value of an own property of a counter: a number, or a string. The string arises
  under a key that names a method of the prototype: the method is truthy, and
  \<open>method + 1\<close> is the text of the function followed by \<open>1\<close>; \<open>Text n\<close> is that text
  followed by \<open>n\<close> ones (the text itself is left to the implementation).
\<close>

datatype cval = Tally nat | Text nat

fun incr :: "cval \<Rightarrow> cval" where
  \<comment> \<open>\<open>(v || 0) + 1\<close> on the value of an own property\<close>
  "incr (Tally n) = Tally (n + 1)"
| "incr (Text n) = Text (n + 1)"

text \<open>
  The own properties of a counter, in the order they were created.
  \<open>obj[key] = (obj[key] || 0) + 1\<close> is \<open>bump\<close>. For a key that is not yet an own property:
  under \<open>__proto__\<close> the right-hand side is the string \<open>[object Object]1\<close>, and the
  assignment runs the setter of the prototype, which ignores a value that is neither an
  object nor \<open>null\<close>, so that no property is created; under the name of a method the
  assignment creates an own property that holds a string; under any other key it creates
  the count \<open>1\<close>.
\<close>

type_synonym counter = "(string \<times> cval) list"

fun bump :: "counter \<Rightarrow> string \<Rightarrow> counter" where
  "bump [] key =
     (if key = ''__proto__'' then []
      else if key \<in> set proto_keys then [(key, Text 1)]
      else [(key, Tally 1)])"
| "bump ((k, v) # rest) key = (if k = key then (k, incr v) # rest else (k, v) # bump rest key)"

text \<open>
  \<open>Object.entries\<close>: the own properties whose key is an array index (the decimal form of
  an integer below \<open>2^32 - 1\<close>) in ascending order of the index, then the others in the
  order they were created.
\<close>

definition is_array_index :: "string \<Rightarrow> bool" where
  "is_array_index k =
     (k \<noteq> [] \<and> list_all is_digit k \<and> parseInt k < 4294967295 \<and> num_to_string (parseInt k) = k)"

definition js_entries :: "counter \<Rightarrow> counter" where
  "js_entries obj =
     sort_key (\<lambda>entry. parseInt (fst entry)) (filter (\<lambda>entry. is_array_index (fst entry)) obj)
     @ filter (\<lambda>entry. \<not> is_array_index (fst entry)) obj"

text \<open>The value recorded for a key among the entries of a counter, \<open>0\<close> when there is no
  entry for it.\<close>

definition count_of :: "counter \<Rightarrow> string \<Rightarrow> cval" where
  "count_of obj key = (case map_of obj key of None \<Rightarrow> Tally 0 | Some v \<Rightarrow> v)"

text \<open>The state of the loop over the submissions. \<open>solvedSet\<close> is a \<open>Set\<close>: its members
  once each, in insertion order.\<close>

record cf_loop =
  solvedSet :: "string list"
  acceptedCount :: nat
  totalSubmissions :: nat
  tagCounts :: counter
  activityCalendar :: counter
  solvedProblems :: "solved_problem list"

definition cf_loop_init :: cf_loop where
  "cf_loop_init = \<lparr>solvedSet = [], acceptedCount = 0, totalSubmissions = 0, tagCounts = [],
                   activityCalendar = [], solvedProblems = []\<rparr>"

definition set_add :: "string list \<Rightarrow> string \<Rightarrow> string list" where
  "set_add xs x = (if x \<in> set xs then xs else xs @ [x])"

text \<open>One iteration of \<open>for (const sub of submissions)\<close>.\<close>

definition cf_step :: "cf_loop \<Rightarrow> submission \<Rightarrow> cf_loop" where
  "cf_step st sub =
     (case sub_problem sub of
        None \<Rightarrow> st
      | Some problem \<Rightarrow>
          (let st1 = st\<lparr>totalSubmissions := totalSubmissions st + 1\<rparr>;
               key = problemKey problem
           in if verdict sub = ''OK'' then
                st1\<lparr>acceptedCount := acceptedCount st1 + 1,
                    solvedSet := set_add (solvedSet st1) key,
                    activityCalendar := bump (activityCalendar st1) (toDateKey (creationTimeSeconds sub)),
                    solvedProblems :=
                      (if key \<in> sp_id ` set (solvedProblems st1) then solvedProblems st1
                       else solvedProblems st1 @
                              [\<lparr>sp_id = key, sp_title = p_name problem,
                                sp_rating = (case p_rating problem of None \<Rightarrow> None
                                             | Some r \<Rightarrow> if r = 0 then None else Some r),
                                sp_tags = (case p_tags problem of None \<Rightarrow> [] | Some ts \<Rightarrow> ts)\<rparr>]),
                    tagCounts := (case p_tags problem of None \<Rightarrow> tagCounts st1
                                  | Some ts \<Rightarrow> foldl bump (tagCounts st1) ts)\<rparr>
              else st1))"

text \<open>
  \<open>Array.prototype.sort\<close> with a comparator is stable, and for a comparator that orders
  consistently the stable result is unique: keep every element ahead of the first later
  element it does not have to follow.
\<close>

fun insort_cmp :: "('a \<Rightarrow> 'a \<Rightarrow> int) \<Rightarrow> 'a \<Rightarrow> 'a list \<Rightarrow> 'a list" where
  "insort_cmp cmp x [] = [x]"
| "insort_cmp cmp x (y # ys) = (if cmp x y \<le> 0 then x # y # ys else y # insort_cmp cmp x ys)"

definition js_sort :: "('a \<Rightarrow> 'a \<Rightarrow> int) \<Rightarrow> 'a list \<Rightarrow> 'a list" where
  "js_sort cmp xs = foldr (insort_cmp cmp) xs []"

text \<open>
  \<open>tagStrengths\<close>: the entries of \<open>tagCounts\<close> sorted by \<open>(a, b) => b.solved - a.solved\<close>.
  On two numbers the comparator is their difference. Where \<open>solved\<close> is a string the
  difference is \<open>NaN\<close>, which \<open>sort\<close> takes as \<open>0\<close>; the comparator then does not order
  consistently, and the language leaves the order of the result to the implementation:
  \<open>Permuted es\<close> is an array that holds the entries \<open>es\<close> in some order.
\<close>

fun is_tally :: "cval \<Rightarrow> bool" where
  "is_tally (Tally n) = True"
| "is_tally (Text n) = False"

fun by_solved :: "string \<times> cval \<Rightarrow> string \<times> cval \<Rightarrow> int" where
  "by_solved (ta, Tally a) (tb, Tally b) = int b - int a"
| "by_solved (ta, Text a) (tb, b) = 0"
| "by_solved (ta, Tally a) (tb, Text b) = 0"

datatype strengths = Sorted counter | Permuted counter

fun entries_of :: "strengths \<Rightarrow> counter" where
  "entries_of (Sorted es) = es"
| "entries_of (Permuted es) = es"

definition sort_strengths :: "counter \<Rightarrow> strengths" where
  "sort_strengths es =
     (if list_all (\<lambda>entry. is_tally (snd entry)) es then Sorted (js_sort by_solved es) else Permuted es)"

record cf_stats =
  cf_handle :: string
  cf_totalProblemsSolved :: int
  submissionAccuracy :: "rat option"
  ratingHistory :: "rating_entry list"
  contestFrequency :: counter
  tagStrengths :: strengths
  cf_solvedProblems :: "solved_problem list"
  cf_activityCalendar :: counter

text \<open>
  What the three Codeforces calls of one \<open>fetchCodeforcesStats\<close> give: a transport or
  parse failure (the promise rejects), or the three decoded bodies, each a status and a
  result.
\<close>

record cf_bodies =
  info_status :: string
  rating_status :: string
  rating_result :: "rating_update list"
  status_status :: string
  status_result :: "submission list"

type_synonym cf_api = "error + cf_bodies"

text \<open>\<open>fetchCodeforcesStats\<close>: \<open>Inl\<close> is a throw, \<open>Inr None\<close> the \<open>null\<close> for a missing handle.\<close>

definition fetchCodeforcesStats :: "cf_api \<Rightarrow> string option \<Rightarrow> error + cf_stats option" where
  "fetchCodeforcesStats api handle =
     (if \<not> truthy_str handle then Inr None
      else (case api of
              Inl err \<Rightarrow> Inl err
            | Inr bodies \<Rightarrow>
                if info_status bodies \<noteq> ''OK'' then Inl (Error ''Failed to fetch Codeforces user info'')
                else
                  (let submissions = (if status_status bodies = ''OK'' then status_result bodies else []);
                       ratingUpdates = (if rating_status bodies = ''OK'' then rating_result bodies else []);
                       st = foldl cf_step cf_loop_init submissions;
                       contestFrequencyMap =
                         foldl (\<lambda>m update. bump m (take 7 (toDateKey (ratingUpdateTimeSeconds update)))) [] ratingUpdates
                   in Inr (Some
                        \<lparr>cf_handle = show_str handle,
                         cf_totalProblemsSolved = int (length (solvedSet st)),
                         submissionAccuracy =
                           (if totalSubmissions st > 0
                            then Some (js_div (of_nat (acceptedCount st)) (of_nat (totalSubmissions st)))
                            else None),
                         ratingHistory =
                           map (\<lambda>update. \<lparr>re_contestName = contestName update, re_rating = newRating update,
                                          timeSeconds = ratingUpdateTimeSeconds update\<rparr>) ratingUpdates,
                         contestFrequency = js_entries contestFrequencyMap,
                         tagStrengths = sort_strengths (js_entries (tagCounts st)),
                         cf_solvedProblems = solvedProblems st,
                         cf_activityCalendar = activityCalendar st\<rparr>))))"


text \<open>Vocabulary for the loop: the submissions it counts as accepted, and their problem,
  key, tags and day.\<close>

definition accepted :: "submission list \<Rightarrow> submission list" where
  "accepted subs = filter (\<lambda>sub. sub_problem sub \<noteq> None \<and> verdict sub = ''OK'') subs"

definition key_of :: "submission \<Rightarrow> string" where
  "key_of sub = (case sub_problem sub of None \<Rightarrow> [] | Some problem \<Rightarrow> problemKey problem)"

definition tags_of :: "submission \<Rightarrow> string list" where
  "tags_of sub = (case sub_problem sub of None \<Rightarrow> []
                  | Some problem \<Rightarrow> (case p_tags problem of None \<Rightarrow> [] | Some ts \<Rightarrow> ts))"

definition day_of :: "submission \<Rightarrow> string" where
  "day_of sub = toDateKey (creationTimeSeconds sub)"

text \<open>A recorded value that is a number, and at least \<open>n\<close>.\<close>

fun at_least :: "nat \<Rightarrow> cval \<Rightarrow> bool" where
  "at_least n (Tally m) = (n \<le> m)"
| "at_least n (Text m) = False"


section \<open>LeetCode and CodeChef statistics\<close>

record ac_submission =
  difficulty :: string
  ac_count :: int
  ac_submissions :: int

record matched_user =
  acSubmissionNum :: "ac_submission list"
  ranking :: "int option"

record lc_stats =
  lc_handle :: string
  lc_totalProblemsSolved :: int
  breakdown :: "ac_submission list"
  lc_ranking :: "int option"

text \<open>
  The LeetCode call: a failure of the request or of decoding, or the body's
  \<open>data.matchedUser\<close> (\<open>None\<close> when \<open>data\<close> or the user is missing). Every failure inside
  the \<open>try\<close>, also the \<open>TypeError\<close> of a breakdown without an \<open>All\<close> row, ends in \<open>null\<close>.
\<close>

type_synonym lc_api = "error + matched_user option"

definition fetchLeetCodeStats :: "lc_api \<Rightarrow> string option \<Rightarrow> lc_stats option" where
  "fetchLeetCodeStats api username =
     (if \<not> truthy_str username then None
      else (case api of
              Inl err \<Rightarrow> None
            | Inr None \<Rightarrow> None
            | Inr (Some user) \<Rightarrow>
                (case find (\<lambda>s. difficulty s = ''All'') (acSubmissionNum user) of
                   None \<Rightarrow> None
                 | Some row \<Rightarrow>
                     Some \<lparr>lc_handle = show_str username, lc_totalProblemsSolved = ac_count row,
                           breakdown = acSubmissionNum user, lc_ranking = ranking user\<rparr>)))"

text \<open>
  The two patterns of the CodeChef scraper, on the page as a string of ASCII characters:
  the first position where the pattern matches, and the digits it captures.
  \<open>\d+\<close> takes every digit that follows, \<open>\s*\<close> every blank.
\<close>

definition is_space :: "char \<Rightarrow> bool" where
  "is_space c = (c \<in> {CHR '' '', CHR 0x09, CHR 0x0A, CHR 0x0B, CHR 0x0C, CHR 0x0D})"

fun strip_prefix :: "string \<Rightarrow> string \<Rightarrow> string option" where
  "strip_prefix [] s = Some s"
| "strip_prefix (p # ps) [] = None"
| "strip_prefix (p # ps) (c # cs) = (if p = c then strip_prefix ps cs else None)"

fun first_match :: "(string \<Rightarrow> 'a option) \<Rightarrow> string \<Rightarrow> 'a option" where
  "first_match f [] = f []"
| "first_match f (c # cs) = (case f (c # cs) of Some m \<Rightarrow> Some m | None \<Rightarrow> first_match f cs)"

definition rating_at :: "string \<Rightarrow> string option" where
  \<open>rating_at s =
     (case strip_prefix ''<div class="rating-number">'' s of
        None \<Rightarrow> None
      | Some r \<Rightarrow>
          (let ds = takeWhile is_digit r
           in if ds \<noteq> [] \<and> strip_prefix ''</div>'' (dropWhile is_digit r) \<noteq> None then Some ds else None))\<close>

definition solved_at :: "string \<Rightarrow> string option" where
  "solved_at s =
     (case strip_prefix ''Fully Solved ('' s of
        None \<Rightarrow> None
      | Some r \<Rightarrow>
          (let r1 = dropWhile is_space r; ds = takeWhile is_digit r1
           in if ds \<noteq> [] \<and> strip_prefix '')'' (dropWhile is_space (dropWhile is_digit r1)) \<noteq> None
              then Some ds else None))"

record cc_stats =
  cc_handle :: string
  cc_rating :: int
  cc_totalProblemsSolved :: int

text \<open>
  A platform result as \<open>aggregateStatsForHandles\<close> holds it. The constructor stands for
  the constant fields \<open>platform\<close> and \<open>supported\<close>. The last one is the marker
  \<open>{platform, handle, error: "Failed to scrape", supported: false}\<close>, which has no
  \<open>totalProblemsSolved\<close>.
\<close>

datatype platform_stats =
  Codeforces cf_stats | LeetCode lc_stats | CodeChef cc_stats | CodeChefFailed string

text \<open>The CodeChef call: a failed request, or the text of the page.\<close>

type_synonym cc_api = "error + string"

definition fetchCodechefStats :: "cc_api \<Rightarrow> string option \<Rightarrow> platform_stats option" where
  "fetchCodechefStats api username =
     (if \<not> truthy_str username then None
      else (case api of
              Inl err \<Rightarrow> Some (CodeChefFailed (show_str username))
            | Inr html \<Rightarrow>
                (let ratingMatch = first_match rating_at html;
                     solvedMatch = first_match solved_at html
                 in Some (CodeChef
                      \<lparr>cc_handle = show_str username,
                       cc_rating = (case ratingMatch of Some ds \<Rightarrow> parseInt ds | None \<Rightarrow> 0),
                       cc_totalProblemsSolved = (case solvedMatch of Some ds \<Rightarrow> parseInt ds | None \<Rightarrow> 0)\<rparr>))))"


section \<open>Aggregate statistics\<close>

definition platform_name :: "platform_stats \<Rightarrow> string" where
  "platform_name p = (case p of Codeforces s \<Rightarrow> ''codeforces'' | LeetCode s \<Rightarrow> ''leetcode''
                      | CodeChef s \<Rightarrow> ''codechef'' | CodeChefFailed h \<Rightarrow> ''codechef'')"

definition platform_handle :: "platform_stats \<Rightarrow> string" where
  "platform_handle p = (case p of Codeforces s \<Rightarrow> cf_handle s | LeetCode s \<Rightarrow> lc_handle s
                        | CodeChef s \<Rightarrow> cc_handle s | CodeChefFailed h \<Rightarrow> h)"

text \<open>\<open>p.totalProblemsSolved\<close>, \<open>undefined\<close> (\<open>None\<close>) on the failure marker.\<close>

definition solved_count :: "platform_stats \<Rightarrow> int option" where
  "solved_count p = (case p of Codeforces s \<Rightarrow> Some (cf_totalProblemsSolved s)
                     | LeetCode s \<Rightarrow> Some (lc_totalProblemsSolved s)
                     | CodeChef s \<Rightarrow> Some (cc_totalProblemsSolved s)
                     | CodeChefFailed h \<Rightarrow> None)"

definition or0 :: "int option \<Rightarrow> int" where
  \<comment> \<open>\<open>n || 0\<close>\<close>
  "or0 n = (case n of None \<Rightarrow> 0 | Some v \<Rightarrow> v)"

record lb_entry =
  le_platform :: string
  le_handle :: string
  le_totalProblemsSolved :: int

record aggregate =
  agg_totalProblemsSolved :: int
  aggregatedAccuracy :: "rat option"
  platforms :: "platform_stats list"
  leaderboardByProblemsSolved :: "lb_entry list"

text \<open>
  The aggregation proper, on the three results \<open>[cf, lc, cc]\<close> of the fetches.
  \<open>totalAccepted\<close> and \<open>totalSubmissions\<close> start at \<open>0\<close>; adding to \<open>0\<close> is exact.
\<close>

definition aggregate_results :: "cf_stats option \<Rightarrow> lc_stats option \<Rightarrow> platform_stats option \<Rightarrow> aggregate" where
  "aggregate_results cf lc cc =
     (let platforms = List.map_filter id [map_option Codeforces cf, map_option LeetCode lc, cc];
          totalProblemsSolved = foldl (\<lambda>sum p. sum + or0 (solved_count p)) 0 platforms;
          acc = (case cf of None \<Rightarrow> None | Some s \<Rightarrow> submissionAccuracy s);
          solved = (case cf of None \<Rightarrow> 0 | Some s \<Rightarrow> cf_totalProblemsSolved s);
          totalAccepted = (case acc of None \<Rightarrow> 0 | Some a \<Rightarrow> 0 + js_mul a (of_int solved));
          totalSubmissions = (case acc of None \<Rightarrow> 0 | Some a \<Rightarrow> 0 + solved)
      in \<lparr>agg_totalProblemsSolved = totalProblemsSolved,
          aggregatedAccuracy = (if totalSubmissions > 0
                                then Some (js_div totalAccepted (of_int totalSubmissions)) else None),
          platforms = platforms,
          leaderboardByProblemsSolved =
            js_sort (\<lambda>a b. le_totalProblemsSolved b - le_totalProblemsSolved a)
              (map (\<lambda>p. \<lparr>le_platform = platform_name p, le_handle = platform_handle p,
                          le_totalProblemsSolved = or0 (solved_count p)\<rparr>) platforms)\<rparr>)"

record agg_env =
  env_cf :: cf_api
  env_lc :: lc_api
  env_cc :: cc_api

text \<open>\<open>aggregateStatsForHandles\<close>: \<open>Promise.all\<close> rejects when the Codeforces fetch throws;
  the other two never throw.\<close>

definition aggregateStatsForHandles :: "agg_env \<Rightarrow> handles \<Rightarrow> error + aggregate" where
  "aggregateStatsForHandles env hs =
     (case fetchCodeforcesStats (env_cf env) (codeforces hs) of
        Inl err \<Rightarrow> Inl err
      | Inr cf \<Rightarrow> Inr (aggregate_results cf
                         (fetchLeetCodeStats (env_lc env) (leetcode hs))
                         (fetchCodechefStats (env_cc env) (codechef hs))))"


section \<open>Leaderboard cache\<close>

record user =
  u_id :: int
  u_name :: string
  u_email :: string
  passwordHash :: string
  u_role :: string
  u_handles :: handles

record row =
  userId :: int
  row_name :: string
  row_handle :: string
  row_platform :: string
  totalSolved :: int
  rating :: int
  row_maxRating :: "int option"
  row_error :: "string option"

record leaderboard_cache =
  lb_data :: "row list"
  lastUpdated :: int
  isUpdating :: bool

definition leaderboardCache :: leaderboard_cache where
  "leaderboardCache = \<lparr>lb_data = [], lastUpdated = 0, isUpdating = False\<rparr>"

definition stats_row :: "user \<Rightarrow> cf_stats \<Rightarrow> row" where
  "stats_row u stats =
     \<lparr>userId = u_id u, row_name = u_name u, row_handle = show_str (codeforces (u_handles u)),
      row_platform = ''codeforces'',
      totalSolved = cf_totalProblemsSolved stats,
      rating = (if length (ratingHistory stats) > 0 then re_rating (last (ratingHistory stats)) else 0),
      row_maxRating = Some (foldl (\<lambda>mx r. max mx (re_rating r)) 0 (ratingHistory stats)),
      row_error = None\<rparr>"

definition error_row :: "user \<Rightarrow> row" where
  "error_row u =
     \<lparr>userId = u_id u, row_name = u_name u, row_handle = show_str (codeforces (u_handles u)),
      row_platform = ''codeforces'', totalSolved = 0, rating = 0, row_maxRating = None,
      row_error = Some ''Failed to fetch''\<rparr>"

text \<open>
  One iteration of \<open>for (const user of allUsers)\<close>, given what the Codeforces calls of this
  iteration return: a user without a handle is skipped, a fetch that throws leaves an
  error row, a fetch that returns statistics leaves their row.
\<close>

definition visit :: "cf_api \<Rightarrow> user \<Rightarrow> row list \<Rightarrow> row list" where
  "visit api u results =
     (if \<not> truthy_str (codeforces (u_handles u)) then results
      else (case fetchCodeforcesStats api (codeforces (u_handles u)) of
              Inl err \<Rightarrow> results @ [error_row u]
            | Inr None \<Rightarrow> results
            | Inr (Some stats) \<Rightarrow> results @ [stats_row u stats]))"

text \<open>The comparator of \<open>results.sort\<close>.\<close>

definition compare_rows :: "row \<Rightarrow> row \<Rightarrow> int" where
  "compare_rows a b = (if rating b \<noteq> rating a then rating b - rating a else totalSolved b - totalSolved a)"

text \<open>
  The server is one thread, and \<open>updateGlobalLeaderboard\<close> gives up control at each
  \<open>await\<close>. A call that has passed the guard is a pass in flight: the users still to visit
  and the rows collected. Between two of its steps any other trigger may run. The events:
  \<^item> \<open>Call users\<close>: \<open>updateGlobalLeaderboard()\<close> is invoked (by the start-up timer or by the
    route); \<open>users\<close> is what \<open>db.getAllUsers()\<close> resolves to for this call;
  \<^item> \<open>Get now users\<close>: \<open>GET /api/leaderboard\<close> at time \<open>now\<close>, which calls it when the cache
    is older than 15 minutes;
  \<^item> \<open>Visit k api\<close>: pass \<open>k\<close> performs its next loop iteration;
  \<^item> \<open>Finish k now\<close>: pass \<open>k\<close>, its loop done, sorts, stores and stamps the result.
  \<open>fetches\<close> counts the calls of \<open>fetchCodeforcesStats\<close> made so far.
\<close>

record pass =
  pending :: "user list"
  results :: "row list"

record server =
  cache :: leaderboard_cache
  running :: "pass list"
  fetches :: nat

datatype event = Call "user list" | Get int "user list" | Visit nat cf_api | Finish nat int

definition call :: "server \<Rightarrow> user list \<Rightarrow> server" where
  "call s users =
     (if isUpdating (cache s) then s
      else s\<lparr>cache := (cache s)\<lparr>isUpdating := True\<rparr>,
             running := running s @ [\<lparr>pending = users, results = []\<rparr>]\<rparr>)"

fun step :: "server \<Rightarrow> event \<Rightarrow> server" where
  "step s (Call users) = call s users"
| "step s (Get now users) = (if now - lastUpdated (cache s) > 15 * 60 * 1000 then call s users else s)"
| "step s (Visit k api) =
     (if k < length (running s) then
        (case pending (running s ! k) of
           [] \<Rightarrow> s
         | u # us \<Rightarrow>
             s\<lparr>running := (running s)[k := \<lparr>pending = us, results = visit api u (results (running s ! k))\<rparr>],
               fetches := fetches s + (if truthy_str (codeforces (u_handles u)) then 1 else 0)\<rparr>)
      else s)"
| "step s (Finish k now) =
     (if k < length (running s) \<and> pending (running s ! k) = [] then
        s\<lparr>cache := (cache s)\<lparr>lb_data := js_sort compare_rows (results (running s ! k)),
                               lastUpdated := now, isUpdating := False\<rparr>,
          running := take k (running s) @ drop (Suc k) (running s)\<rparr>
      else s)"

definition run :: "server \<Rightarrow> event list \<Rightarrow> server" where
  "run s events = foldl step s events"

definition server_start :: server where
  "server_start = \<lparr>cache = leaderboardCache, running = [], fetches = 0\<rparr>"

text \<open>The body of the route's response, built after the trigger.\<close>

definition leaderboard_response :: "server \<Rightarrow> int \<times> bool \<times> row list" where
  "leaderboard_response s = (lastUpdated (cache s), isUpdating (cache s), lb_data (cache s))"

text \<open>The rows a pass collects from its users, given the API answers of its iterations
  in order; and the leaderboard's order.\<close>

fun collect :: "cf_api list \<Rightarrow> user list \<Rightarrow> row list \<Rightarrow> row list" where
  "collect (api # apis) (u # us) rows = collect apis us (visit api u rows)"
| "collect apis us rows = rows"

text \<open>Single flight: at most one pass is in flight, and the flag is set exactly while
  one is.\<close>

definition single_flight :: "server \<Rightarrow> bool" where
  "single_flight s = (length (running s) \<le> 1 \<and> (isUpdating (cache s) \<longleftrightarrow> running s \<noteq> []))"

definition ranks_before :: "row \<Rightarrow> row \<Rightarrow> bool" where
  "ranks_before a b = (rating a > rating b \<or> (rating a = rating b \<and> totalSolved a \<ge> totalSolved b))"

fun visits_of :: "nat \<Rightarrow> event list \<Rightarrow> cf_api list" where
  "visits_of k [] = []"
| "visits_of k (Visit j api # evs) = (if j = k then api # visits_of k evs else visits_of k evs)"
| "visits_of k (e # evs) = visits_of k evs"

fun is_finish :: "event \<Rightarrow> bool" where
  "is_finish (Finish k now) = True"
| "is_finish e = False"


section \<open>Problem recommendations\<close>

record problem_set_cache =
  ps_problems :: "cf_problem list"
  ps_lastUpdated :: int

definition problemSetCache :: problem_set_cache where
  "problemSetCache = \<lparr>ps_problems = [], ps_lastUpdated = 0\<rparr>"

text \<open>
  What a run of \<open>getRecommendations\<close> takes from its environment: the two readings of the
  clock in \<open>getProblemSet\<close>, the answer of the problem-set call (a failure, or the status and
  the problems), and the order in which \<open>sort(() => 0.5 - Math.random())\<close> leaves the
  candidates.
\<close>

record rec_env =
  now_check :: int
  now_store :: int
  problemset_api :: "error + string \<times> cf_problem list"
  shuffle :: "cf_problem list \<Rightarrow> cf_problem list"

definition getProblemSet :: "rec_env \<Rightarrow> problem_set_cache \<Rightarrow> cf_problem list \<times> problem_set_cache" where
  "getProblemSet env c =
     (if now_check env - ps_lastUpdated c < 60 * 60 * 1000 \<and> length (ps_problems c) > 0
      then (ps_problems c, c)
      else (case problemset_api env of
              Inl err \<Rightarrow> ([], c)
            | Inr (status, problems) \<Rightarrow>
                if status = ''OK''
                then (problems, \<lparr>ps_problems = problems, ps_lastUpdated = now_store env\<rparr>)
                else (ps_problems c, c)))"

record recommendation =
  rec_title :: "string option"
  rec_contestId :: "int option"
  rec_index :: "string option"
  rec_rating :: "int option"
  rec_tags :: "string list option"
  link :: string

text \<open>\<open>`${p.contestId}-${p.index}`\<close>\<close>

definition pid :: "int option \<Rightarrow> string option \<Rightarrow> string" where
  "pid c i = show_num c @ ''-'' @ show_str i"

definition is_candidate :: "int \<Rightarrow> int \<Rightarrow> string set \<Rightarrow> cf_problem \<Rightarrow> bool" where
  "is_candidate minRating maxRating solvedIds p =
     (case p_rating p of
        None \<Rightarrow> False
      | Some r \<Rightarrow>
          if r = 0 \<or> r < minRating \<or> r > maxRating then False
          else if pid (contestId p) (p_index p) \<in> solvedIds then False
          else True)"

definition to_recommendation :: "cf_problem \<Rightarrow> recommendation" where
  "to_recommendation p =
     \<lparr>rec_title = p_name p, rec_contestId = contestId p, rec_index = p_index p,
      rec_rating = p_rating p, rec_tags = p_tags p,
      link = ''https://codeforces.com/contest/'' @ show_num (contestId p) @ ''/problem/'' @ show_str (p_index p)\<rparr>"

definition currentRating :: "cf_stats \<Rightarrow> int" where
  "currentRating s = (if length (ratingHistory s) > 0 then re_rating (last (ratingHistory s)) else 800)"

definition getRecommendations :: "rec_env \<Rightarrow> platform_stats option \<Rightarrow> problem_set_cache
                                   \<Rightarrow> recommendation list \<times> problem_set_cache" where
  "getRecommendations env userStats c =
     (case userStats of
        Some (Codeforces s) \<Rightarrow>
          (let minRating = max 800 (currentRating s + 100);
               maxRating = min 3500 (currentRating s + 400);
               (allProblems, c1) = getProblemSet env c;
               solvedIds = set (map sp_id (cf_solvedProblems s));
               candidates = filter (is_candidate minRating maxRating solvedIds) allProblems;
               shuffled = shuffle env candidates
           in (map to_recommendation (take 5 shuffled), c1))
      | _ \<Rightarrow> ([], c))"


section \<open>Sample inputs\<close>

text \<open>Two clocks, each returning one fixed ISO timestamp for every tier.\<close>

definition clock_jan :: "nat \<Rightarrow> string" where
  "clock_jan i = ''2025-01-01T00:00:00.000Z''"

definition clock_feb :: "nat \<Rightarrow> string" where
  "clock_feb i = ''2025-02-01T00:00:00.000Z''"

text \<open>An environment for a sync run, a stored member with a given solved count, a
  database that holds that one member, the same database with a write that is rejected,
  a database whose read of the members is rejected, and the states after syncing totals
  of 800, then 700, then 800 again.\<close>

definition sample_env :: sync_env where
  "sample_env = \<lparr>milestone_clock = clock_jan,
                 log_stamp = (\<lambda>k. (''1735689600000_k3x9q2m1z'', ''2025-01-01T00:00:00.000Z'')),
                 sync_iso = ''2025-01-01T00:00:00.000Z'', sync_ms = 1735689600000\<rparr>"

definition stored_member :: "int \<Rightarrow> member" where
  "stored_member n =
     \<lparr>m_id = None, m_name = Some ''Ravi Sharma'', m_email = ''ravi@tsap.club'', m_role = ''admin'',
      joinDate = ''2025-09-01'',
      m_handles = \<lparr>codeforces = Some ''ravisharma-09'', leetcode = Some ''ravi_lc'', codechef = Some ''ravi_cc''\<rparr>,
      problemsSolved = Count n, m_ratings = None\<rparr>"

definition db_total :: "int \<Rightarrow> database option" where
  "db_total n = Some \<lparr>members_read = Inr (Some [(''2'', stored_member n)]), clubData_write = None\<rparr>"



definition after_800 :: sync_state where
  "after_800 = snd (performFullSync sample_env (db_total 800) initial_sync_state)"

definition after_800_700 :: sync_state where
  "after_800_700 = snd (performFullSync sample_env (db_total 700) after_800)"

definition after_800_700_800 :: sync_state where
  "after_800_700_800 = snd (performFullSync sample_env (db_total 800) after_800_700)"

text \<open>Codeforces data: a problem of contest \<open>n\<close>, a submission to it, the three bodies
  around a list of submissions; two accepted submissions to one problem on one day; and
  thirty submissions of which three, to three problems, are accepted.\<close>

definition sample_problem :: "int \<Rightarrow> cf_problem" where
  "sample_problem n = \<lparr>contestId = Some n, p_index = Some ''A'', p_name = Some ''Theatre Square'',
                       p_rating = Some 1000, p_tags = Some [''dp'', ''math'']\<rparr>"

definition sample_sub :: "int \<Rightarrow> string \<Rightarrow> int \<Rightarrow> submission" where
  "sample_sub n v t = \<lparr>sub_problem = Some (sample_problem n), verdict = v, creationTimeSeconds = t\<rparr>"

definition sample_bodies :: "submission list \<Rightarrow> cf_bodies" where
  "sample_bodies subs = \<lparr>info_status = ''OK'', rating_status = ''OK'', rating_result = [],
                         status_status = ''OK'', status_result = subs\<rparr>"

text \<open>A problem whose one tag is \<open>__proto__\<close>, and two accepted submissions to it.\<close>

definition proto_problem :: cf_problem where
  "proto_problem = \<lparr>contestId = Some 5, p_index = Some ''B'', p_name = Some ''Prototype'',
                    p_rating = Some 1200, p_tags = Some [''__proto__'']\<rparr>"

definition proto_submissions :: "submission list" where
  "proto_submissions =
     [\<lparr>sub_problem = Some proto_problem, verdict = ''OK'', creationTimeSeconds = 1700000000\<rparr>,
      \<lparr>sub_problem = Some proto_problem, verdict = ''OK'', creationTimeSeconds = 1700000060\<rparr>]"

definition two_accepted :: "submission list" where
  "two_accepted = [sample_sub 1 ''OK'' 1700000000, sample_sub 1 ''OK'' 1700000060]"

definition thirty_submissions :: "submission list" where
  "thirty_submissions =
     [sample_sub 1 ''OK'' 1700000000, sample_sub 2 ''OK'' 1700000060, sample_sub 3 ''OK'' 1700000120]
     @ replicate 27 (sample_sub 4 ''WRONG_ANSWER'' 1700000180)"

definition sample_handles :: handles where
  "sample_handles = \<lparr>codeforces = Some ''ravisharma-09'', leetcode = Some ''ravi_lc'',
                     codechef = Some ''ravisharma_09''\<rparr>"

definition cf_only_handles :: handles where
  "cf_only_handles = \<lparr>codeforces = Some ''ravisharma-09'', leetcode = None, codechef = None\<rparr>"

text \<open>Codeforces and LeetCode answer, the CodeChef request fails.\<close>

definition env_cc_down :: agg_env where
  "env_cc_down =
     \<lparr>env_cf = Inr (sample_bodies two_accepted),
      env_lc = Inr (Some \<lparr>acSubmissionNum = [\<lparr>difficulty = ''All'', ac_count = 250, ac_submissions = 400\<rparr>,
                                             \<lparr>difficulty = ''Easy'', ac_count = 120, ac_submissions = 150\<rparr>],
                          ranking = Some 123456\<rparr>),
      env_cc = Inl (Error ''ETIMEDOUT'')\<rparr>"

definition env_tenth :: agg_env where
  "env_tenth = \<lparr>env_cf = Inr (sample_bodies thirty_submissions), env_lc = Inr None, env_cc = Inr []\<rparr>"

text \<open>Four submissions of which three, to three problems, are accepted.\<close>

definition four_submissions :: "submission list" where
  "four_submissions =
     [sample_sub 1 ''OK'' 1700000000, sample_sub 2 ''OK'' 1700000060, sample_sub 3 ''OK'' 1700000120,
      sample_sub 4 ''WRONG_ANSWER'' 1700000180]"

definition env_three_quarters :: agg_env where
  "env_three_quarters = \<lparr>env_cf = Inr (sample_bodies four_submissions), env_lc = Inr None, env_cc = Inr []\<rparr>"

text \<open>Leaderboard data: four users, the last without a Codeforces handle; API bodies with
  one rating update; and what happens between the start of a pass and its end: the four
  loop iterations (the second fetch fails), with two further triggers in between.\<close>

definition sample_user :: "int \<Rightarrow> string \<Rightarrow> string \<Rightarrow> user" where
  "sample_user i n h =
     \<lparr>u_id = i, u_name = n, u_email = ''member@tsap.club'', passwordHash = ''5e884898da28'',
      u_role = ''member'', u_handles = \<lparr>codeforces = Some h, leetcode = Some [], codechef = Some []\<rparr>\<rparr>"

definition sample_users :: "user list" where
  "sample_users = [sample_user 1 ''Ravi Sharma'' ''ravisharma-09'', sample_user 2 ''Aarpan Lohora'' ''AarpanLohora'',
                   sample_user 3 ''Ankur Bhadauria'' ''LOKI_29'', sample_user 4 ''Sarah Miller'' []]"

definition rated_bodies :: "int \<Rightarrow> submission list \<Rightarrow> cf_api" where
  "rated_bodies r subs =
     Inr \<lparr>info_status = ''OK'', rating_status = ''OK'',
          rating_result = [\<lparr>contestName = ''Codeforces Round 900'', newRating = r,
                            ratingUpdateTimeSeconds = 1700000000\<rparr>],
          status_status = ''OK'', status_result = subs\<rparr>"

definition sample_trace :: "event list" where
  "sample_trace =
     [Visit 0 (rated_bodies 1200 two_accepted),
      Call sample_users,
      Visit 0 (Inl (Error ''ECONNRESET'')),
      Get 1735689650000 sample_users,
      Visit 0 (rated_bodies 1500 []),
      Visit 0 (rated_bodies 900 [])]"

text \<open>Recommendation data: the statistics of a user rated 1200 who solved problem
  \<open>1-A\<close>, a catalogue of eleven problems, and an environment whose shuffle reverses.\<close>

definition sample_stats :: cf_stats where
  "sample_stats =
     \<lparr>cf_handle = ''ravisharma-09'', cf_totalProblemsSolved = 1, submissionAccuracy = Some 1,
      ratingHistory = [\<lparr>re_contestName = ''Codeforces Round 900'', re_rating = 1200, timeSeconds = 1700000000\<rparr>],
      contestFrequency = [(''2023-11'', Tally 1)],
      tagStrengths = Sorted [(''dp'', Tally 2), (''math'', Tally 2)],
      cf_solvedProblems = [\<lparr>sp_id = ''1-A'', sp_title = Some ''Theatre Square'', sp_rating = Some 1000,
                             sp_tags = [''dp'', ''math'']\<rparr>],
      cf_activityCalendar = [(''2023-11-14'', Tally 2)]\<rparr>"

definition catalog_problem :: "int \<Rightarrow> int option \<Rightarrow> cf_problem" where
  "catalog_problem n r = (sample_problem n)\<lparr>p_rating := r\<rparr>"

definition sample_catalog :: "cf_problem list" where
  "sample_catalog =
     [catalog_problem 1 (Some 1300), catalog_problem 2 (Some 1400), catalog_problem 3 (Some 1700),
      catalog_problem 4 (Some 1250), catalog_problem 5 None, catalog_problem 6 (Some 1300),
      catalog_problem 7 (Some 1500), catalog_problem 8 (Some 1600), catalog_problem 9 (Some 1350),
      catalog_problem 10 (Some 1450), catalog_problem 11 (Some 1550)]"

definition sample_rec_env :: rec_env where
  "sample_rec_env = \<lparr>now_check = 1735689600000, now_store = 1735689600500,
                     problemset_api = Inr (''OK'', sample_catalog), shuffle = rev\<rparr>"


section \<open>Rendering numbers\<close>

lemma nat_to_string_digit: "n < 10 \<Longrightarrow> nat_to_string n = [digit_char n]"
  by (simp add: nat_to_string.simps)

lemma nat_to_string_more: "10 \<le> n \<Longrightarrow> nat_to_string n = nat_to_string (n div 10) @ [digit_char (n mod 10)]"
  by (subst nat_to_string.simps) simp


section \<open>Properties of the club milestones\<close>

lemma distinct_thresholds: "distinct (map threshold CLUB_MILESTONES)"
  by (simp add: CLUB_MILESTONES_def)

lemma calculateClubMilestones_length: "length (calculateClubMilestones clock c prev) = length CLUB_MILESTONES"
  by (simp add: calculateClubMilestones_def)

lemma calculateClubMilestones_nth:
  "i < length CLUB_MILESTONES \<Longrightarrow>
   calculateClubMilestones clock c prev ! i = club_tier (clock i) c prev (CLUB_MILESTONES ! i)"
  by (simp add: calculateClubMilestones_def nth_enumerate_eq)

lemma find_distinct_key:
  "distinct (map f xs) \<Longrightarrow> i < length xs \<Longrightarrow> find (\<lambda>m. f m = f (xs ! i)) xs = Some (xs ! i)"
proof (induction xs arbitrary: i)
  case Nil
  then show ?case by simp
next
  case (Cons x xs)
  show ?case
  proof (cases i)
    case 0
    then show ?thesis by simp
  next
    case (Suc j)
    with Cons.prems have "j < length xs" and "f (xs ! j) \<noteq> f x"
      by (auto simp: image_iff) (metis nth_mem)
    with Cons Suc show ?thesis by auto
  qed
qed

lemma calculateClubMilestones_thresholds:
  "map ms_threshold (calculateClubMilestones clock c prev) = map threshold CLUB_MILESTONES"
  by (rule nth_equalityI) (simp_all add: calculateClubMilestones_length calculateClubMilestones_nth club_tier_def Let_def)

lemma find_threshold_own:
  assumes "i < length CLUB_MILESTONES"
  shows "find_threshold (threshold (CLUB_MILESTONES ! i)) (calculateClubMilestones clock c prev)
         = Some (calculateClubMilestones clock c prev ! i)"
proof -
  let ?r = "calculateClubMilestones clock c prev"
  have d: "distinct (map ms_threshold ?r)"
    by (simp add: calculateClubMilestones_thresholds distinct_thresholds)
  have t: "ms_threshold (?r ! i) = threshold (CLUB_MILESTONES ! i)"
    using assms by (simp add: calculateClubMilestones_nth club_tier_def Let_def)
  have "find (\<lambda>m. ms_threshold m = ms_threshold (?r ! i)) ?r = Some (?r ! i)"
    using d assms by (intro find_distinct_key) (simp_all add: calculateClubMilestones_length)
  then show ?thesis by (simp add: find_threshold_def t)
qed

lemma club_tier_achieved: "achieved (club_tier now c prev m) = (threshold m \<le> c)"
  by (simp add: club_tier_def Let_def)

lemma club_tier_date_kept:
  "find_threshold (threshold m) prev = Some e \<Longrightarrow> date e = Some d \<Longrightarrow> d \<noteq> [] \<Longrightarrow>
   date (club_tier now c prev m) = (if threshold m \<le> c then Some d else None)"
  by (simp add: club_tier_def Let_def str_or_def)

lemma club_tier_date_nonempty:
  "now \<noteq> [] \<Longrightarrow> threshold m \<le> c \<Longrightarrow> \<exists>d. date (club_tier now c prev m) = Some d \<and> d \<noteq> []"
  by (auto simp add: club_tier_def Let_def str_or_def split: option.splits)

text \<open>
  Claim C1. For every solved count \<open>c\<close> (non-negative or not) and every previous list,
  \<open>calculateClubMilestones\<close> returns one entry per tier of \<open>CLUB_MILESTONES\<close>, in order, and
  the entry's \<open>achieved\<close> is exactly \<open>c \<ge> threshold\<close>. When the previous list's entry for
  the tier (the first with that threshold) carries a non-empty date and \<open>c\<close> meets the
  threshold, the returned date is that date. Consequently a second call with the first
  result as the previous list and the same or a larger count keeps every achieved tier
  achieved, with the date of the first result (the clock writes non-empty timestamps).
\<close>

theorem calculateClubMilestones_spec:
  "length (calculateClubMilestones clock c prev) = length CLUB_MILESTONES \<and>
   (\<forall>i < length CLUB_MILESTONES.
      ms_threshold (calculateClubMilestones clock c prev ! i) = threshold (CLUB_MILESTONES ! i) \<and>
      achieved (calculateClubMilestones clock c prev ! i) = (c \<ge> threshold (CLUB_MILESTONES ! i)) \<and>
      (\<forall>e d. find_threshold (threshold (CLUB_MILESTONES ! i)) prev = Some e \<and> date e = Some d \<and> d \<noteq> []
               \<and> c \<ge> threshold (CLUB_MILESTONES ! i)
             \<longrightarrow> date (calculateClubMilestones clock c prev ! i) = Some d) \<and>
      (\<forall>clock' c'. (\<forall>j. clock j \<noteq> []) \<and> c \<le> c' \<and> achieved (calculateClubMilestones clock c prev ! i)
             \<longrightarrow> achieved (calculateClubMilestones clock' c' (calculateClubMilestones clock c prev) ! i) \<and>
                 date (calculateClubMilestones clock' c' (calculateClubMilestones clock c prev) ! i)
                   = date (calculateClubMilestones clock c prev ! i)))"
proof (intro conjI allI impI)
  show "length (calculateClubMilestones clock c prev) = length CLUB_MILESTONES"
    by (rule calculateClubMilestones_length)
next
  fix i assume "i < length CLUB_MILESTONES"
  then show "ms_threshold (calculateClubMilestones clock c prev ! i) = threshold (CLUB_MILESTONES ! i)"
    by (simp add: calculateClubMilestones_nth club_tier_def Let_def)
next
  fix i assume "i < length CLUB_MILESTONES"
  then show "achieved (calculateClubMilestones clock c prev ! i) = (c \<ge> threshold (CLUB_MILESTONES ! i))"
    by (simp add: calculateClubMilestones_nth club_tier_achieved)
next
  fix i e d
  assume i: "i < length CLUB_MILESTONES"
    and h: "find_threshold (threshold (CLUB_MILESTONES ! i)) prev = Some e \<and> date e = Some d \<and> d \<noteq> []
            \<and> c \<ge> threshold (CLUB_MILESTONES ! i)"
  then show "date (calculateClubMilestones clock c prev ! i) = Some d"
    by (simp add: calculateClubMilestones_nth club_tier_date_kept)
next
  fix i clock' c'
  assume i: "i < length CLUB_MILESTONES"
    and h: "(\<forall>j. clock j \<noteq> []) \<and> c \<le> c' \<and> achieved (calculateClubMilestones clock c prev ! i)"
  let ?m = "CLUB_MILESTONES ! i"
  let ?r = "calculateClubMilestones clock c prev"
  from i h have le: "threshold ?m \<le> c"
    by (simp add: calculateClubMilestones_nth club_tier_achieved)
  with h have le': "threshold ?m \<le> c'" by simp
  from h have "clock i \<noteq> []" by simp
  from club_tier_date_nonempty [OF this le, of prev] i
  obtain d where d: "date (?r ! i) = Some d" "d \<noteq> []"
    by (auto simp: calculateClubMilestones_nth)
  have f: "find_threshold (threshold ?m) ?r = Some (?r ! i)"
    using i by (rule find_threshold_own)
  show "achieved (calculateClubMilestones clock' c' ?r ! i)"
    using i le' by (simp add: calculateClubMilestones_nth club_tier_achieved)
  show "date (calculateClubMilestones clock' c' ?r ! i) = date (?r ! i)"
    using i le' club_tier_date_kept [OF f d] d
    by (simp add: calculateClubMilestones_nth)
qed

theorem calculateClubMilestones_spec_witness:
  "(0::nat) < length CLUB_MILESTONES \<and>
   find_threshold (threshold (CLUB_MILESTONES ! 0)) (calculateClubMilestones clock_jan 900 [])
     = Some (calculateClubMilestones clock_jan 900 [] ! 0) \<and>
   date (calculateClubMilestones clock_jan 900 [] ! 0) = Some ''2025-01-01T00:00:00.000Z'' \<and>
   ''2025-01-01T00:00:00.000Z'' \<noteq> [] \<and>
   (1300::int) \<ge> threshold (CLUB_MILESTONES ! 0) \<and>
   date (calculateClubMilestones clock_feb 1300 (calculateClubMilestones clock_jan 900 []) ! 0)
     = Some ''2025-01-01T00:00:00.000Z'' \<and>
   (\<forall>j. clock_feb j \<noteq> []) \<and> (1300::int) \<le> 1300 \<and>
   achieved (calculateClubMilestones clock_feb 1300 (calculateClubMilestones clock_jan 900 []) ! 0) \<and>
   achieved (calculateClubMilestones clock_jan 1300
              (calculateClubMilestones clock_feb 1300 (calculateClubMilestones clock_jan 900 [])) ! 0) \<and>
   date (calculateClubMilestones clock_jan 1300
              (calculateClubMilestones clock_feb 1300 (calculateClubMilestones clock_jan 900 [])) ! 0)
     = date (calculateClubMilestones clock_feb 1300 (calculateClubMilestones clock_jan 900 []) ! 0)"
  using calculateClubMilestones_spec [of clock_feb 1300 "calculateClubMilestones clock_jan 900 []"]
  by (simp add: calculateClubMilestones_def CLUB_MILESTONES_def club_tier_def find_threshold_def
        str_or_def clock_jan_def clock_feb_def enumerate_simps)


text \<open>
  Claim C7, as stated, fails: \<open>achieved\<close> is recomputed from the count alone. A snapshot
  taken at 800 solved problems records the first tier as achieved with a timestamp; the
  result computed from 700 with that snapshot as the existing state reports the tier as
  not achieved, with date \<open>null\<close>.
\<close>

theorem club_milestone_reverts_counterexample:
  "achieved (calculateClubMilestones clock_jan 800 [] ! 0) \<and>
   date (calculateClubMilestones clock_jan 800 [] ! 0) = Some ''2025-01-01T00:00:00.000Z'' \<and>
   \<not> achieved (calculateClubMilestones clock_feb 700 (calculateClubMilestones clock_jan 800 []) ! 0) \<and>
   date (calculateClubMilestones clock_feb 700 (calculateClubMilestones clock_jan 800 []) ! 0) = None"
  by (simp add: calculateClubMilestones_def CLUB_MILESTONES_def club_tier_def find_threshold_def
        str_or_def clock_jan_def clock_feb_def enumerate_simps)

text \<open>
  Claim C7, amended. Once a snapshot records a tier as achieved with a non-empty timestamp
  \<open>d\<close>, a later result computed with that snapshot as the existing state keeps the tier
  achieved with date \<open>d\<close> exactly when the later count still meets the tier's threshold;
  from a count below the threshold the tier comes back not achieved, with date \<open>null\<close>.
\<close>

theorem club_milestone_kept_while_threshold_met:
  assumes "i < length CLUB_MILESTONES"
    and "find_threshold (threshold (CLUB_MILESTONES ! i)) snapshot = Some e"
    and "achieved e" and "date e = Some d" and "d \<noteq> []"
  shows "achieved (calculateClubMilestones clock c snapshot ! i) = (threshold (CLUB_MILESTONES ! i) \<le> c) \<and>
         date (calculateClubMilestones clock c snapshot ! i)
           = (if threshold (CLUB_MILESTONES ! i) \<le> c then Some d else None)"
  using assms by (simp add: calculateClubMilestones_nth club_tier_achieved club_tier_date_kept)

theorem club_milestone_kept_while_threshold_met_witness:
  "(0::nat) < length CLUB_MILESTONES \<and>
   find_threshold (threshold (CLUB_MILESTONES ! 0)) (calculateClubMilestones clock_jan 800 [])
     = Some (calculateClubMilestones clock_jan 800 [] ! 0) \<and>
   achieved (calculateClubMilestones clock_jan 800 [] ! 0) \<and>
   date (calculateClubMilestones clock_jan 800 [] ! 0) = Some ''2025-01-01T00:00:00.000Z'' \<and>
   ''2025-01-01T00:00:00.000Z'' \<noteq> [] \<and>
   achieved (calculateClubMilestones clock_feb 900 (calculateClubMilestones clock_jan 800 []) ! 0) \<and>
   date (calculateClubMilestones clock_feb 900 (calculateClubMilestones clock_jan 800 []) ! 0)
     = Some ''2025-01-01T00:00:00.000Z''"
  using club_milestone_kept_while_threshold_met [of 0 "calculateClubMilestones clock_jan 800 []"
      "calculateClubMilestones clock_jan 800 [] ! 0" "''2025-01-01T00:00:00.000Z''" clock_feb 900]
  by (simp add: calculateClubMilestones_def CLUB_MILESTONES_def club_tier_def find_threshold_def
        str_or_def clock_jan_def clock_feb_def enumerate_simps)


section \<open>Properties of the member milestones\<close>

lemma in_range_unique_aux:
  "m \<in> set INDIVIDUAL_MILESTONES \<Longrightarrow> m' \<in> set INDIVIDUAL_MILESTONES \<Longrightarrow>
   in_range c m \<Longrightarrow> in_range c m' \<Longrightarrow> m' = m"
  unfolding INDIVIDUAL_MILESTONES_def in_range_def
  by (elim disjE conjE | simp)+

lemma find_in_range:
  "0 \<le> c \<Longrightarrow> \<exists>m. find (in_range c) INDIVIDUAL_MILESTONES = Some m"
  by (simp add: INDIVIDUAL_MILESTONES_def in_range_def)

text \<open>
  Claim C2. For every non-negative solved count \<open>c\<close> exactly one of the seven ranges of
  \<open>INDIVIDUAL_MILESTONES\<close> contains \<open>c\<close>, and \<open>calculateMemberMilestone c\<close> is not \<open>null\<close>: it
  returns that tier's level, badge and reward together with \<open>c\<close>. Solved counts are
  integers.
\<close>

theorem calculateMemberMilestone_total:
  assumes "0 \<le> c"
  shows "\<exists>m \<in> set INDIVIDUAL_MILESTONES.
           in_range c m \<and>
           (\<forall>m' \<in> set INDIVIDUAL_MILESTONES. in_range c m' \<longrightarrow> m' = m) \<and>
           (\<exists>r. calculateMemberMilestone c = Some r \<and>
                mm_level r = level m \<and> mm_badge r = badge m \<and> mm_reward r = im_reward m \<and>
                mm_problemsSolved r = c)"
proof -
  from find_in_range [OF assms] obtain m where f: "find (in_range c) INDIVIDUAL_MILESTONES = Some m" ..
  then have mem: "m \<in> set INDIVIDUAL_MILESTONES" and r: "in_range c m"
    by (auto simp: find_Some_iff)
  have u: "\<forall>m' \<in> set INDIVIDUAL_MILESTONES. in_range c m' \<longrightarrow> m' = m"
    using mem r by (blast intro: in_range_unique_aux)
  have "\<exists>r. calculateMemberMilestone c = Some r \<and>
                mm_level r = level m \<and> mm_badge r = badge m \<and> mm_reward r = im_reward m \<and>
                mm_problemsSolved r = c"
    by (simp add: calculateMemberMilestone_def f Let_def)
  with mem r u show ?thesis by blast
qed

theorem calculateMemberMilestone_total_witness:
  "(0::int) \<le> 49 \<and>
   (\<exists>m \<in> set INDIVIDUAL_MILESTONES.
      in_range 49 m \<and>
      (\<forall>m' \<in> set INDIVIDUAL_MILESTONES. in_range 49 m' \<longrightarrow> m' = m) \<and>
      (\<exists>r. calculateMemberMilestone 49 = Some r \<and>
           mm_level r = level m \<and> mm_badge r = badge m \<and> mm_reward r = im_reward m \<and>
           mm_problemsSolved r = 49))"
  using calculateMemberMilestone_total [of 49] by simp


section \<open>Sync service: logging and failure\<close>

lemma performFullSync_run:
  "\<exists>cd. performFullSync env db st =
            (Inr cd, st\<lparr>activities := log_new_milestones (log_stamp env) 0
                                        (getNewlyAchievedMilestones (previousMilestones st)
                                           (calculateClubMilestones (milestone_clock env) (club_total db) (previousMilestones st)))
                                        (activities st),
                       cachedClubData := Some cd, lastSyncMs := Some (sync_ms env)\<rparr>) \<and>
          milestones cd = calculateClubMilestones (milestone_clock env) (club_total db) (previousMilestones st) \<and>
          totalProblemsSolved cd = club_total db \<and> lastSyncTime cd = sync_iso env"
  by (cases "saveClubData db (club_stats.extend (aggregateClubStats (filter validateMemberData (fetchAllMembers db)))
                  (club_data.fields (calculateClubMilestones (milestone_clock env) (club_total db) (previousMilestones st)) 30 (sync_iso env)))")
     (simp_all add: performFullSync_def previousMilestones_def club_total_def sync_failed_def Let_def
        club_stats.extend_def club_data.fields_def)

lemma club_total_db_total: "0 \<le> n \<Longrightarrow> club_total (db_total n) = n"
  by (simp add: club_total_def db_total_def stored_member_def fetchAllMembers_def with_id_def
      validateMemberData_def truthy_str_def aggregateClubStats_def add_solved_def Let_def)



lemmas milestone_eval = calculateClubMilestones_def CLUB_MILESTONES_def club_tier_def find_threshold_def
  str_or_def clock_jan_def enumerate_simps getNewlyAchievedMilestones_def

lemmas log_eval = activityExists_def obj_get_def logClubMilestone_def logActivity_def obj_literal_def
  CLUB_MILESTONE_def MAX_ACTIVITIES_def

lemma sample_env_simps:
  "milestone_clock sample_env = clock_jan"
  "log_stamp sample_env k = (''1735689600000_k3x9q2m1z'', ''2025-01-01T00:00:00.000Z'')"
  by (simp_all add: sample_env_def)

lemma after_800_state:
  "previousMilestones after_800 = calculateClubMilestones clock_jan 800 []"
  "activities after_800 =
     [fst (logClubMilestone (log_stamp sample_env 0) (calculateClubMilestones clock_jan 800 [] ! 0) [])]"
  using performFullSync_run [of sample_env "db_total 800" initial_sync_state]
  by (auto simp: after_800_def previousMilestones_def club_total_db_total sample_env_simps
      initial_sync_state_def milestone_eval log_eval Let_def)

lemma after_800_700_state:
  "previousMilestones after_800_700 = calculateClubMilestones clock_jan 700 (calculateClubMilestones clock_jan 800 [])"
  "activities after_800_700 = activities after_800"
  using performFullSync_run [of sample_env "db_total 700" after_800]
  by (auto simp: after_800_700_def previousMilestones_def [of "snd _"] club_total_db_total sample_env_simps
       after_800_state(1) milestone_eval)

text \<open>
  Claim C3 on the code. \<open>activityExists\<close> is asked for the flat key
  \<open>'milestone.threshold'\<close>, which no logged activity has (the threshold sits inside the
  nested \<open>milestone\<close> object), so the guard in step 7 never finds an entry. Syncing totals
  of 800, 700 and 800 again: the log holds one announcement of threshold 800 before the
  third sync and two after it.
\<close>

theorem duplicate_announcement:
  "length (filter (announces 800) (activities after_800_700)) = 1 \<and>
   \<not> activityExists (activities after_800_700) CLUB_MILESTONE [(''milestone.threshold'', JNum 800)] \<and>
   length (filter (announces 800) (activities after_800_700_800)) = 2"
proof -
  have "activities after_800_700_800 =
        log_new_milestones (log_stamp sample_env) 0
          (getNewlyAchievedMilestones (previousMilestones after_800_700)
             (calculateClubMilestones clock_jan 800 (previousMilestones after_800_700)))
          (activities after_800)"
    using performFullSync_run [of sample_env "db_total 800" after_800_700]
    by (auto simp: after_800_700_800_def club_total_db_total sample_env_simps after_800_700_state(2))
  then have "length (filter (announces 800) (activities after_800_700_800)) = 2"
    by (simp add: after_800_700_state(1) after_800_state(2) milestone_eval log_eval sample_env_simps
         announces_def Let_def)
  moreover have "length (filter (announces 800) (activities after_800_700)) = 1"
    by (simp add: after_800_700_state(2) after_800_state(2) milestone_eval log_eval sample_env_simps
         announces_def Let_def)
  moreover have "\<not> activityExists (activities after_800_700) CLUB_MILESTONE [(''milestone.threshold'', JNum 800)]"
    by (simp add: after_800_700_state(2) after_800_state(2) milestone_eval log_eval sample_env_simps Let_def)
  ultimately show ?thesis by simp
qed






section \<open>Sync service: announcements under totals that never decrease\<close>

lemma activityExists_flat_key:
  assumes "\<forall>a \<in> set acts. map_of a ''milestone.threshold'' = None"
  shows "\<not> activityExists acts ty [(''milestone.threshold'', JNum t)]"
  using assms by (induction acts) (auto simp: activityExists_def obj_get_def)

lemma logClubMilestone_activity:
  "snd (logClubMilestone stamp m acts) = take MAX_ACTIVITIES (fst (logClubMilestone stamp m acts) # acts)"
  "map_of (fst (logClubMilestone stamp m acts)) ''milestone.threshold'' = None"
  "announces t (fst (logClubMilestone stamp m acts)) \<longleftrightarrow> ms_threshold m = t"
  by (simp_all add: logClubMilestone_def logActivity_def obj_literal_def Let_def announces_def obj_get_def
        CLUB_MILESTONE_def)

text \<open>
  No activity that \<open>logClubMilestone\<close> writes has a property named
  \<open>milestone.threshold\<close>. On a log of such activities the guard of step 7 is never true,
  and the loop logs every milestone it is given (up to the cap of the log).
\<close>

lemma log_new_milestones_flat_key:
  assumes "\<forall>a \<in> set acts. map_of a ''milestone.threshold'' = None"
  shows "\<forall>a \<in> set (log_new_milestones stamp k ms acts). map_of a ''milestone.threshold'' = None"
  using assms
proof (induction ms arbitrary: k acts)
  case Nil
  then show ?case by simp
next
  case (Cons m ms)
  let ?acts = "snd (logClubMilestone (stamp k) m acts)"
  have g: "\<not> activityExists acts CLUB_MILESTONE [(''milestone.threshold'', JNum (ms_threshold m))]"
    using Cons.prems by (rule activityExists_flat_key)
  have inv: "\<forall>a \<in> set ?acts. map_of a ''milestone.threshold'' = None"
    using Cons.prems logClubMilestone_activity(2) [of "stamp k" m acts]
    by (auto simp: logClubMilestone_activity(1) dest!: in_set_takeD)
  from Cons.IH [OF inv, of "Suc k"] g show ?case by simp
qed

lemma guard_never_fires:
  assumes "\<forall>a \<in> set acts. map_of a ''milestone.threshold'' = None"
    and "length acts \<le> MAX_ACTIVITIES"
  shows "length (log_new_milestones stamp k ms acts) = min MAX_ACTIVITIES (length acts + length ms)"
  using assms
proof (induction ms arbitrary: k acts)
  case Nil
  then show ?case by simp
next
  case (Cons m ms)
  let ?acts = "snd (logClubMilestone (stamp k) m acts)"
  have g: "\<not> activityExists acts CLUB_MILESTONE [(''milestone.threshold'', JNum (ms_threshold m))]"
    using Cons.prems(1) by (rule activityExists_flat_key)
  have inv: "\<forall>a \<in> set ?acts. map_of a ''milestone.threshold'' = None"
    using Cons.prems(1) logClubMilestone_activity(2) [of "stamp k" m acts]
    by (auto simp: logClubMilestone_activity(1) dest!: in_set_takeD)
  have len: "length ?acts = min MAX_ACTIVITIES (Suc (length acts))"
    by (simp add: logClubMilestone_activity(1))
  then have "length ?acts \<le> MAX_ACTIVITIES" by simp
  from Cons.IH [OF inv this, of "Suc k"] g len Cons.prems(2) show ?case by simp
qed

lemma filter_take_le: "length (filter P (take n xs)) \<le> length (filter P xs)"
proof -
  have "length (filter P xs) = length (filter P (take n xs)) + length (filter P (drop n xs))"
    by (metis append_take_drop_id filter_append length_append)
  then show ?thesis by simp
qed

lemma logClubMilestone_count:
  "length (filter (announces t) (snd (logClubMilestone stamp m acts)))
     \<le> length (filter (announces t) acts) + (if ms_threshold m = t then 1 else 0)"
proof -
  have "length (filter (announces t) (snd (logClubMilestone stamp m acts)))
          \<le> length (filter (announces t) (fst (logClubMilestone stamp m acts) # acts))"
    unfolding logClubMilestone_activity(1) by (rule filter_take_le)
  then show ?thesis by (auto simp: logClubMilestone_activity(3) split: if_splits)
qed

lemma log_new_milestones_count:
  assumes "distinct (map ms_threshold ms)"
  shows "length (filter (announces t) (log_new_milestones stamp k ms acts))
           \<le> length (filter (announces t) acts) + (if t \<in> ms_threshold ` set ms then 1 else 0)"
  using assms
proof (induction ms arbitrary: k acts)
  case Nil
  then show ?case by simp
next
  case (Cons m ms)
  then have d: "distinct (map ms_threshold ms)" and nm: "ms_threshold m \<notin> ms_threshold ` set ms"
    by auto
  show ?case
  proof (cases "activityExists acts CLUB_MILESTONE [(''milestone.threshold'', JNum (ms_threshold m))]")
    case True
    with Cons.IH [OF d, of "Suc k" acts] nm show ?thesis by (auto split: if_splits)
  next
    case False
    let ?acts = "snd (logClubMilestone (stamp k) m acts)"
    from Cons.IH [OF d, of "Suc k" ?acts] logClubMilestone_count [of t "stamp k" m acts] nm False
    show ?thesis by (auto split: if_splits)
  qed
qed

lemma getNewlyAchieved_thresholds:
  "distinct (map ms_threshold new) \<Longrightarrow> distinct (map ms_threshold (getNewlyAchievedMilestones old new))"
  by (simp add: getNewlyAchievedMilestones_def distinct_map_filter)

lemma newly_above_previous:
  assumes "m \<in> set (getNewlyAchievedMilestones (calculateClubMilestones clock' c prev')
                      (calculateClubMilestones clock c' (calculateClubMilestones clock' c prev')))"
  shows "c < ms_threshold m \<and> ms_threshold m \<le> c'"
proof -
  let ?old = "calculateClubMilestones clock' c prev'"
  let ?new = "calculateClubMilestones clock c' ?old"
  from assms have mem: "m \<in> set ?new" and ach: "achieved m"
    and old: "case find_threshold (ms_threshold m) ?old of None \<Rightarrow> True | Some oldM \<Rightarrow> \<not> achieved oldM"
    by (auto simp: getNewlyAchievedMilestones_def)
  from mem obtain i where i: "i < length CLUB_MILESTONES" and m: "m = ?new ! i"
    by (metis in_set_conv_nth calculateClubMilestones_length)
  have t: "ms_threshold m = threshold (CLUB_MILESTONES ! i)"
    using i m by (simp add: calculateClubMilestones_nth club_tier_def Let_def)
  from ach have le: "threshold (CLUB_MILESTONES ! i) \<le> c'"
    using i m by (simp add: calculateClubMilestones_nth club_tier_achieved)
  from old have "\<not> achieved (?old ! i)"
    by (simp add: t find_threshold_own [OF i])
  then have "c < threshold (CLUB_MILESTONES ! i)"
    using i by (simp add: calculateClubMilestones_nth club_tier_achieved)
  with le t show ?thesis by simp
qed

lemma newly_at_most_total:
  assumes "m \<in> set (getNewlyAchievedMilestones old (calculateClubMilestones clock c' old))"
  shows "ms_threshold m \<le> c'"
proof -
  let ?new = "calculateClubMilestones clock c' old"
  from assms have mem: "m \<in> set ?new" and ach: "achieved m"
    by (auto simp: getNewlyAchievedMilestones_def)
  from mem obtain i where i: "i < length CLUB_MILESTONES" and m: "m = ?new ! i"
    by (metis in_set_conv_nth calculateClubMilestones_length)
  with ach show ?thesis
    by (simp add: calculateClubMilestones_nth club_tier_def Let_def)
qed

text \<open>
  What keeps a threshold from being announced twice is the comparison with the cached
  milestones: over any series of syncs whose totals never decrease, starting from the
  empty state, no threshold has more than one announcement in the log.
\<close>

lemma announced_once_initial: "announced_once initial_sync_state"
  by (simp add: announced_once_def announcements_def initial_sync_state_def)

lemma announced_once_sync:
  assumes inv: "announced_once st"
    and grow: "\<forall>cd. cachedClubData st = Some cd \<longrightarrow> totalProblemsSolved cd \<le> club_total db"
  shows "announced_once (snd (performFullSync env db st))"
proof -
  let ?prev = "previousMilestones st"
  let ?new = "calculateClubMilestones (milestone_clock env) (club_total db) ?prev"
  let ?newly = "getNewlyAchievedMilestones ?prev ?new"
  let ?st = "snd (performFullSync env db st)"
  from performFullSync_run [of env db st] obtain cd
    where acts: "activities ?st = log_new_milestones (log_stamp env) 0 ?newly (activities st)"
      and cache: "cachedClubData ?st = Some cd"
      and ms: "milestones cd = ?new" and tot: "totalProblemsSolved cd = club_total db"
    by auto
  have dist: "distinct (map ms_threshold ?newly)"
    by (rule getNewlyAchieved_thresholds) (simp add: calculateClubMilestones_thresholds distinct_thresholds)
  have count: "announcements t ?st \<le> announcements t st + (if t \<in> ms_threshold ` set ?newly then 1 else 0)" for t
    unfolding announcements_def acts by (rule log_new_milestones_count [OF dist])
  have fresh: "announcements t st = 0" if "t \<in> ms_threshold ` set ?newly" for t
  proof (cases "cachedClubData st")
    case None
    with inv show ?thesis by (simp add: announced_once_def)
  next
    case (Some old)
    with inv obtain clk prev where old: "milestones old = calculateClubMilestones clk (totalProblemsSolved old) prev"
      and below: "\<forall>t. 0 < announcements t st \<longrightarrow> t \<le> totalProblemsSolved old"
      by (auto simp: announced_once_def)
    from that obtain m where m: "m \<in> set ?newly" and t: "t = ms_threshold m" by auto
    have "?prev = calculateClubMilestones clk (totalProblemsSolved old) prev"
      by (simp add: previousMilestones_def Some old)
    with m have "totalProblemsSolved old < ms_threshold m"
      using newly_above_previous [of m clk "totalProblemsSolved old" prev "milestone_clock env" "club_total db"]
      by simp
    with below t show ?thesis by (metis not_less neq0_conv)
  qed
  have once: "announcements t ?st \<le> 1" for t
  proof (cases "t \<in> ms_threshold ` set ?newly")
    case True
    with count [of t] fresh [of t] show ?thesis by simp
  next
    case False
    with count [of t] inv show ?thesis
      by (auto simp: announced_once_def intro: order_trans)
  qed
  have below: "t \<le> totalProblemsSolved cd" if "0 < announcements t ?st" for t
  proof (cases "t \<in> ms_threshold ` set ?newly")
    case True
    then obtain m where "m \<in> set ?newly" "t = ms_threshold m" by auto
    then show ?thesis using newly_at_most_total [of m ?prev "milestone_clock env" "club_total db"]
      by (simp add: tot)
  next
    case False
    with count [of t] that have pos: "0 < announcements t st" by simp
    show ?thesis
    proof (cases "cachedClubData st")
      case None
      with inv pos show ?thesis by (simp add: announced_once_def)
    next
      case (Some old)
      with inv pos have "t \<le> totalProblemsSolved old" by (simp add: announced_once_def)
      with grow Some show ?thesis by (simp add: tot)
    qed
  qed
  from once below ms tot cache show ?thesis
    by (auto simp: announced_once_def)
qed

lemma announced_once_sync_all:
  assumes "announced_once st"
    and "sorted (map (\<lambda>(env, db). club_total db) runs)"
    and "\<forall>cd. cachedClubData st = Some cd \<longrightarrow> (\<forall>(env, db) \<in> set runs. totalProblemsSolved cd \<le> club_total db)"
  shows "announced_once (sync_all runs st)"
  using assms
proof (induction runs arbitrary: st)
  case Nil
  then show ?case by (simp add: sync_all_def)
next
  case (Cons r runs)
  obtain env db where r: "r = (env, db)" by (cases r)
  let ?st = "snd (performFullSync env db st)"
  have 1: "announced_once ?st"
    using Cons.prems(1,3) by (intro announced_once_sync) (auto simp: r)
  have 2: "sorted (map (\<lambda>(env, db). club_total db) runs)"
    using Cons.prems(2) by simp
  have 3: "\<forall>cd. cachedClubData ?st = Some cd \<longrightarrow> (\<forall>(env, db) \<in> set runs. totalProblemsSolved cd \<le> club_total db)"
  proof -
    from performFullSync_run [of env db st] obtain cd
      where "cachedClubData ?st = Some cd" "totalProblemsSolved cd = club_total db"
      by auto
    with Cons.prems(2) show ?thesis by (auto simp: r)
  qed
  from Cons.IH [OF 1 2 3] show ?case by (simp add: sync_all_def r)
qed

lemma announcements_once_when_totals_grow:
  assumes "sorted (map (\<lambda>(env, db). club_total db) runs)"
  shows "announcements t (sync_all runs initial_sync_state) \<le> 1"
proof -
  have "announced_once (sync_all runs initial_sync_state)"
    using assms by (intro announced_once_sync_all announced_once_initial) (simp_all add: initial_sync_state_def)
  then show ?thesis by (simp add: announced_once_def)
qed


section \<open>Properties of the aggregate\<close>

lemma foldl_add_sum_list:
  "foldl (\<lambda>sum p. sum + f p) a xs = a + sum_list (map f xs)" for a :: int
  by (induction xs arbitrary: a) simp_all

lemma fetchCodeforcesStats_count_nonneg:
  "fetchCodeforcesStats api handle = Inr (Some s) \<Longrightarrow> 0 \<le> cf_totalProblemsSolved s"
  by (auto simp: fetchCodeforcesStats_def Let_def split: if_splits sum.splits)

lemma aggregate_results_total:
  "agg_totalProblemsSolved (aggregate_results cf lc cc)
     = sum_list (map (\<lambda>p. or0 (solved_count p)) (platforms (aggregate_results cf lc cc)))"
  by (simp add: aggregate_results_def Let_def foldl_add_sum_list)

lemma aggregate_results_platforms:
  "platforms (aggregate_results cf lc cc)
     = List.map_filter id [map_option Codeforces cf, map_option LeetCode lc, cc]"
  by (simp add: aggregate_results_def Let_def)

lemma aggregate_results_accuracy:
  "aggregatedAccuracy (aggregate_results cf lc cc) =
     (case cf of
        None \<Rightarrow> None
      | Some s \<Rightarrow>
          (case submissionAccuracy s of
             None \<Rightarrow> None
           | Some a \<Rightarrow>
               if cf_totalProblemsSolved s > 0
               then Some (js_div (js_mul a (of_int (cf_totalProblemsSolved s))) (of_int (cf_totalProblemsSolved s)))
               else None))"
  by (simp add: aggregate_results_def Let_def split: option.splits)

text \<open>
  Claim C5. When \<open>aggregateStatsForHandles\<close> returns, its \<open>platforms\<close> are the non-null
  results of the three fetches, and \<open>totalProblemsSolved\<close> is the sum over them of the
  solved count, a result without the count (the CodeChef failure marker) adding \<open>0\<close>.
  \<open>aggregatedAccuracy\<close> is the same whatever the LeetCode and CodeChef results are, and it
  is \<open>null\<close> exactly when the Codeforces result is absent, its \<open>submissionAccuracy\<close> is
  \<open>null\<close>, or its solved count is \<open>0\<close>.
\<close>

theorem aggregateStatsForHandles_total_and_accuracy:
  assumes "aggregateStatsForHandles env hs = Inr r"
  shows "\<exists>cf. fetchCodeforcesStats (env_cf env) (codeforces hs) = Inr cf \<and>
           platforms r = List.map_filter id
                           [map_option Codeforces cf,
                            map_option LeetCode (fetchLeetCodeStats (env_lc env) (leetcode hs)),
                            fetchCodechefStats (env_cc env) (codechef hs)] \<and>
           agg_totalProblemsSolved r
             = sum_list (map (\<lambda>p. case solved_count p of None \<Rightarrow> 0 | Some n \<Rightarrow> n) (platforms r)) \<and>
           (\<forall>h. solved_count (CodeChefFailed h) = None) \<and>
           (\<forall>lc cc. aggregatedAccuracy (aggregate_results cf lc cc) = aggregatedAccuracy r) \<and>
           (aggregatedAccuracy r = None \<longleftrightarrow>
              (case cf of None \<Rightarrow> True
               | Some s \<Rightarrow> submissionAccuracy s = None \<or> cf_totalProblemsSolved s = 0))"
proof -
  from assms obtain cf where cf: "fetchCodeforcesStats (env_cf env) (codeforces hs) = Inr cf"
    and r: "r = aggregate_results cf (fetchLeetCodeStats (env_lc env) (leetcode hs))
                  (fetchCodechefStats (env_cc env) (codechef hs))"
    by (auto simp: aggregateStatsForHandles_def split: sum.splits)
  have nonneg: "0 \<le> cf_totalProblemsSolved s" if "cf = Some s" for s
    using cf that by (auto intro: fetchCodeforcesStats_count_nonneg)
  have or0: "(\<lambda>p. or0 (solved_count p)) = (\<lambda>p. case solved_count p of None \<Rightarrow> 0 | Some n \<Rightarrow> n)"
    by (simp add: or0_def)
  have tot: "agg_totalProblemsSolved r
             = sum_list (map (\<lambda>p. case solved_count p of None \<Rightarrow> 0 | Some n \<Rightarrow> n) (platforms r))"
    unfolding r aggregate_results_total or0 ..
  have acc: "aggregatedAccuracy r = None \<longleftrightarrow>
              (case cf of None \<Rightarrow> True
               | Some s \<Rightarrow> submissionAccuracy s = None \<or> cf_totalProblemsSolved s = 0)"
    using nonneg by (auto simp: r aggregate_results_accuracy split: option.splits)
  from cf tot acc show ?thesis
    by (auto simp: r aggregate_results_platforms aggregate_results_accuracy solved_count_def)
qed

theorem aggregateStatsForHandles_total_and_accuracy_witness:
  "\<exists>r. aggregateStatsForHandles env_cc_down sample_handles = Inr r \<and>
       map platform_name (platforms r) = [''codeforces'', ''leetcode'', ''codechef''] \<and>
       map solved_count (platforms r) = [Some 1, Some 250, None] \<and>
       agg_totalProblemsSolved r
         = sum_list (map (\<lambda>p. case solved_count p of None \<Rightarrow> 0 | Some n \<Rightarrow> n) (platforms r)) \<and>
       agg_totalProblemsSolved r = 251 \<and>
       aggregatedAccuracy r = Some 1 \<and>
       (\<forall>lc cc. aggregatedAccuracy
                  (aggregate_results (case fetchCodeforcesStats (env_cf env_cc_down) (codeforces sample_handles) of
                                        Inr cf \<Rightarrow> cf | Inl e \<Rightarrow> None) lc cc)
                = aggregatedAccuracy r)"
proof -
  have "case aggregateStatsForHandles env_cc_down sample_handles of
          Inr r \<Rightarrow> map platform_name (platforms r) = [''codeforces'', ''leetcode'', ''codechef''] \<and>
                   map solved_count (platforms r) = [Some 1, Some 250, None] \<and>
                   agg_totalProblemsSolved r = 251 \<and> aggregatedAccuracy r = Some 1
        | Inl e \<Rightarrow> False"
    by code_simp
  then obtain r where r: "aggregateStatsForHandles env_cc_down sample_handles = Inr r"
    and e: "map platform_name (platforms r) = [''codeforces'', ''leetcode'', ''codechef'']"
      "map solved_count (platforms r) = [Some 1, Some 250, None]"
      "agg_totalProblemsSolved r = 251" "aggregatedAccuracy r = Some 1"
    by (auto split: sum.splits)
  from aggregateStatsForHandles_total_and_accuracy [OF r] r e show ?thesis
    by auto
qed

text \<open>
  Claim C9, as stated, fails in double arithmetic. With 3 of 30 submissions accepted, on 3
  problems, \<open>submissionAccuracy\<close> is the double nearest \<open>0.1\<close>; multiplied by 3 and divided
  by 3 it comes back as \<open>0.10000000000000002\<close>, one unit in the last place higher.
\<close>

theorem aggregatedAccuracy_not_identity_counterexample:
  "(case fetchCodeforcesStats (env_cf env_tenth) (codeforces cf_only_handles) of
      Inr (Some s) \<Rightarrow> cf_totalProblemsSolved s = 3 \<and>
                      submissionAccuracy s = Some (3602879701896397 / 36028797018963968)
    | _ \<Rightarrow> False) \<and>
   (case aggregateStatsForHandles env_tenth cf_only_handles of
      Inr r \<Rightarrow> aggregatedAccuracy r = Some (7205759403792795 / 72057594037927936)
    | Inl e \<Rightarrow> False) \<and>
   (3602879701896397 / 36028797018963968 :: rat) \<noteq> 7205759403792795 / 72057594037927936"
  by code_simp

text \<open>
  Claim C9, amended. A non-null \<open>aggregatedAccuracy\<close> is computed from the Codeforces
  result alone, as the accuracy \<open>a\<close> times the solved count \<open>n\<close>, rounded, divided by \<open>n\<close>,
  rounded. It equals \<open>a\<close> whenever the product \<open>a * n\<close> is a double (no rounding in the
  multiplication); otherwise it may differ from \<open>a\<close> in the last place.
\<close>

theorem aggregatedAccuracy_when_product_exact:
  assumes "aggregateStatsForHandles env hs = Inr r" and "aggregatedAccuracy r = Some v"
  shows "\<exists>s a. fetchCodeforcesStats (env_cf env) (codeforces hs) = Inr (Some s) \<and>
               submissionAccuracy s = Some a \<and>
               v = js_div (js_mul a (of_int (cf_totalProblemsSolved s))) (of_int (cf_totalProblemsSolved s)) \<and>
               (fl (a * of_int (cf_totalProblemsSolved s)) = a * of_int (cf_totalProblemsSolved s) \<and> fl a = a
                  \<longrightarrow> v = a)"
proof -
  from assms(1) obtain cf where cf: "fetchCodeforcesStats (env_cf env) (codeforces hs) = Inr cf"
    and r: "r = aggregate_results cf (fetchLeetCodeStats (env_lc env) (leetcode hs))
                  (fetchCodechefStats (env_cc env) (codechef hs))"
    by (auto simp: aggregateStatsForHandles_def split: sum.splits)
  from assms(2) obtain s a where s: "cf = Some s" and a: "submissionAccuracy s = Some a"
    and pos: "cf_totalProblemsSolved s > 0"
    and v: "v = js_div (js_mul a (of_int (cf_totalProblemsSolved s))) (of_int (cf_totalProblemsSolved s))"
    by (auto simp: r aggregate_results_accuracy split: option.splits if_splits)
  have "v = a" if "fl (a * of_int (cf_totalProblemsSolved s)) = a * of_int (cf_totalProblemsSolved s)"
    and "fl a = a"
    using that pos by (simp add: v js_div_def js_mul_def)
  with cf s a v show ?thesis by blast
qed

theorem aggregatedAccuracy_when_product_exact_witness:
  "\<exists>r s. aggregateStatsForHandles env_three_quarters cf_only_handles = Inr r \<and>
         aggregatedAccuracy r = Some (3 / 4) \<and>
         fetchCodeforcesStats (env_cf env_three_quarters) (codeforces cf_only_handles) = Inr (Some s) \<and>
         submissionAccuracy s = Some (3 / 4) \<and> cf_totalProblemsSolved s = 3 \<and>
         fl (3 / 4 * of_int 3) = 3 / 4 * of_int 3 \<and> fl (3 / 4) = 3 / 4"
proof -
  have "case aggregateStatsForHandles env_three_quarters cf_only_handles of
          Inr r \<Rightarrow> aggregatedAccuracy r = Some (3 / 4) | Inl e \<Rightarrow> False"
    by code_simp
  then obtain r where r: "aggregateStatsForHandles env_three_quarters cf_only_handles = Inr r"
    and v: "aggregatedAccuracy r = Some (3 / 4)"
    by (auto split: sum.splits)
  have "case fetchCodeforcesStats (env_cf env_three_quarters) (codeforces cf_only_handles) of
          Inr (Some s) \<Rightarrow> submissionAccuracy s = Some (3 / 4) \<and> cf_totalProblemsSolved s = 3
        | _ \<Rightarrow> False"
    by code_simp
  then obtain s where s: "fetchCodeforcesStats (env_cf env_three_quarters) (codeforces cf_only_handles) = Inr (Some s)"
      "submissionAccuracy s = Some (3 / 4)" "cf_totalProblemsSolved s = 3"
    by (auto split: sum.splits option.splits)
  have f: "fl (3 / 4 * of_int 3) = 3 / 4 * of_int 3" "fl (3 / 4) = 3 / 4"
    by code_simp+
  from aggregatedAccuracy_when_product_exact [OF r v] r v s f show ?thesis
    by auto
qed


section \<open>Properties of the Codeforces loop\<close>

lemma proto_in_proto_keys: "''__proto__'' \<in> set proto_keys"
  by (simp add: proto_keys_def)

lemma count_of_bump:
  assumes "k' \<notin> set proto_keys \<or> k \<notin> set proto_keys"
  shows "count_of (bump m k) k' = (if k' = k then incr (count_of m k') else count_of m k')"
  using assms proto_in_proto_keys
  by (induction m k rule: bump.induct) (auto simp: count_of_def)

lemma count_of_foldl_bump:
  assumes "t \<notin> set proto_keys" and "count_of m t = Tally n"
  shows "count_of (foldl bump m ts) t = Tally (n + count_list ts t)"
  using assms(2)
proof (induction ts arbitrary: m n)
  case Nil
  then show ?case by simp
next
  case (Cons a ts)
  have "count_of (bump m a) t = Tally (n + (if t = a then 1 else 0))"
    using assms(1) Cons.prems by (auto simp: count_of_bump)
  from Cons.IH [OF this] show ?case by auto
qed

lemma fst_set_bump: "fst ` set (bump m k) \<subseteq> insert k (fst ` set m)"
  by (induction m k rule: bump.induct) auto

lemma distinct_bump: "distinct (map fst m) \<Longrightarrow> distinct (map fst (bump m k))"
proof (induction m k rule: bump.induct)
  case (1 key)
  then show ?case by simp
next
  case (2 k n rest key)
  then show ?case
    using fst_set_bump [of rest key] by (auto simp: image_iff)
qed

lemma distinct_foldl_bump: "distinct (map fst m) \<Longrightarrow> distinct (map fst (foldl bump m ts))"
  by (induction ts arbitrary: m) (simp_all add: distinct_bump)

lemma mset_insort_cmp: "mset (insort_cmp cmp x ys) = add_mset x (mset ys)"
  by (induction ys) simp_all

lemma mset_js_sort: "mset (js_sort cmp xs) = mset xs"
  by (induction xs) (simp_all add: js_sort_def mset_insort_cmp)

lemma mset_js_entries: "mset (js_entries obj) = mset obj"
  by (simp add: js_entries_def)

lemma mset_sort_strengths: "mset (entries_of (sort_strengths es)) = mset es"
  by (simp add: sort_strengths_def mset_js_sort)

lemma count_of_perm:
  assumes "mset xs = mset ys" and "distinct (map fst xs)"
  shows "count_of xs k = count_of ys k"
proof -
  from assms(1) have m: "mset (map fst xs) = mset (map fst ys)" by (metis mset_map)
  with assms(2) have "distinct (map fst ys)" by (metis mset_eq_imp_distinct_iff)
  moreover from assms(1) have "set xs = set ys" by (rule mset_eq_setD)
  ultimately have "map_of xs = map_of ys"
    using assms(2) by (simp add: map_of_inject_set)
  then show ?thesis by (simp add: count_of_def)
qed

text \<open>A date key holds a hyphen, and no name of \<open>Object.prototype\<close> does: the calendar is
  never asked for a property of the prototype.\<close>

lemma toDateKey_hyphen: "CHR ''-'' \<in> set (toDateKey t)"
  by (auto simp: toDateKey_def split: prod.splits) (metis prod_cases3)

lemma toDateKey_plain: "toDateKey t \<notin> set proto_keys"
proof
  assume "toDateKey t \<in> set proto_keys"
  moreover have "\<forall>k \<in> set proto_keys. CHR ''-'' \<notin> set k"
    by (simp add: proto_keys_def)
  ultimately show False using toDateKey_hyphen [of t] by blast
qed

lemma accepted_Cons:
  "accepted (s # subs) = (if sub_problem s \<noteq> None \<and> verdict s = ''OK'' then s # accepted subs else accepted subs)"
  by (simp add: accepted_def)

lemma cf_step_accepted:
  assumes "sub_problem s = Some p" and "verdict s = ''OK''"
  shows "tagCounts (cf_step st s) = foldl bump (tagCounts st) (tags_of s)"
    and "activityCalendar (cf_step st s) = bump (activityCalendar st) (day_of s)"
    and "solvedSet (cf_step st s) = set_add (solvedSet st) (key_of s)"
  using assms by (auto simp: cf_step_def Let_def tags_of_def day_of_def key_of_def split: option.splits)

lemma cf_step_other:
  assumes "\<not> (sub_problem s \<noteq> None \<and> verdict s = ''OK'')"
  shows "tagCounts (cf_step st s) = tagCounts st"
    and "activityCalendar (cf_step st s) = activityCalendar st"
    and "solvedSet (cf_step st s) = solvedSet st"
  using assms by (auto simp: cf_step_def Let_def split: option.splits)

lemma loop_tagCounts:
  assumes "t \<notin> set proto_keys" and "count_of (tagCounts st) t = Tally n"
  shows "count_of (tagCounts (foldl cf_step st subs)) t
     = Tally (n + sum_list (map (\<lambda>s. count_list (tags_of s) t) (accepted subs)))"
  using assms(2)
proof (induction subs arbitrary: st n)
  case Nil
  then show ?case by (simp add: accepted_def)
next
  case (Cons s subs)
  show ?case
  proof (cases "sub_problem s \<noteq> None \<and> verdict s = ''OK''")
    case True
    then obtain p where p: "sub_problem s = Some p" "verdict s = ''OK''" by auto
    have "count_of (tagCounts (cf_step st s)) t = Tally (n + count_list (tags_of s) t)"
      using p Cons.prems by (simp add: cf_step_accepted count_of_foldl_bump [OF assms(1)])
    from Cons.IH [OF this] show ?thesis
      using True by (simp add: accepted_Cons add.assoc)
  next
    case False
    then have "count_of (tagCounts (cf_step st s)) t = Tally n"
      using Cons.prems by (simp add: cf_step_other)
    from Cons.IH [OF this] show ?thesis
      using False by (auto simp: accepted_Cons)
  qed
qed

lemma loop_tagCounts_distinct:
  "distinct (map fst (tagCounts st)) \<Longrightarrow> distinct (map fst (tagCounts (foldl cf_step st subs)))"
proof (induction subs arbitrary: st)
  case Nil
  then show ?case by simp
next
  case (Cons s subs)
  have "distinct (map fst (tagCounts (cf_step st s)))"
  proof (cases "sub_problem s \<noteq> None \<and> verdict s = ''OK''")
    case True
    then obtain p where "sub_problem s = Some p" "verdict s = ''OK''" by auto
    then show ?thesis using Cons.prems by (simp add: cf_step_accepted distinct_foldl_bump)
  next
    case False
    then show ?thesis using Cons.prems by (simp add: cf_step_other)
  qed
  then show ?case by (simp add: Cons.IH)
qed

lemma loop_activityCalendar:
  assumes "count_of (activityCalendar st) d = Tally n"
  shows "count_of (activityCalendar (foldl cf_step st subs)) d
     = Tally (n + length (filter (\<lambda>s. day_of s = d) (accepted subs)))"
  using assms
proof (induction subs arbitrary: st n)
  case Nil
  then show ?case by (simp add: accepted_def)
next
  case (Cons s subs)
  show ?case
  proof (cases "sub_problem s \<noteq> None \<and> verdict s = ''OK''")
    case True
    then obtain p where p: "sub_problem s = Some p" "verdict s = ''OK''" by auto
    have "day_of s \<notin> set proto_keys"
      by (simp add: day_of_def toDateKey_plain)
    then have "count_of (activityCalendar (cf_step st s)) d = Tally (n + (if day_of s = d then 1 else 0))"
      using p Cons.prems by (auto simp: cf_step_accepted count_of_bump)
    from Cons.IH [OF this] show ?thesis
      using True by (simp add: accepted_Cons)
  next
    case False
    then have "count_of (activityCalendar (cf_step st s)) d = Tally n"
      using Cons.prems by (simp add: cf_step_other)
    from Cons.IH [OF this] show ?thesis
      using False by (auto simp: accepted_Cons)
  qed
qed

lemma loop_solvedSet:
  "distinct (solvedSet st) \<Longrightarrow>
   distinct (solvedSet (foldl cf_step st subs)) \<and>
   set (solvedSet (foldl cf_step st subs)) = set (solvedSet st) \<union> key_of ` set (accepted subs)"
proof (induction subs arbitrary: st)
  case Nil
  then show ?case by (simp add: accepted_def)
next
  case (Cons s subs)
  show ?case
  proof (cases "sub_problem s \<noteq> None \<and> verdict s = ''OK''")
    case True
    then obtain p where p: "sub_problem s = Some p" "verdict s = ''OK''" by auto
    have "distinct (solvedSet (cf_step st s))"
      using Cons.prems p by (simp add: cf_step_accepted set_add_def)
    from Cons.IH [OF this] show ?thesis
      using True p by (auto simp: accepted_Cons cf_step_accepted set_add_def)
  next
    case False
    have "distinct (solvedSet (cf_step st s))"
      using Cons.prems False by (simp add: cf_step_other)
    from Cons.IH [OF this] show ?thesis
      using False by (auto simp: accepted_Cons cf_step_other)
  qed
qed

lemma two_positions:
  assumes "i < j" and "j < length l"
  shows "\<exists>xs ys zs. l = xs @ l ! i # ys @ l ! j # zs"
proof -
  from assms have i: "i < length l" by simp
  have 1: "l = take i l @ l ! i # drop (Suc i) l"
    using i by (rule id_take_nth_drop)
  let ?r = "drop (Suc i) l"
  from assms have j: "j - Suc i < length ?r" by simp
  have 2: "?r = take (j - Suc i) ?r @ ?r ! (j - Suc i) # drop (Suc (j - Suc i)) ?r"
    using j by (rule id_take_nth_drop)
  from assms have "?r ! (j - Suc i) = l ! j" by simp
  with 1 2 show ?thesis by metis
qed

text \<open>
  Claim C10, as stated, fails for a tag that names a property of \<open>Object.prototype\<close>:
  \<open>tagCounts\<close> is a plain object. Two accepted submissions to one problem whose tag is
  \<open>__proto__\<close>: each \<open>tagCounts[tag] = (tagCounts[tag] || 0) + 1\<close> reads the prototype and
  assigns a string through the setter of \<open>__proto__\<close>, which stores nothing, so
  \<open>tagStrengths\<close> is empty and the tag is not counted at all, while the day is counted
  twice and the problem once.
\<close>

theorem proto_tag_not_counted_counterexample:
  "accepted proto_submissions = proto_submissions \<and>
   map sub_problem proto_submissions = [Some proto_problem, Some proto_problem] \<and>
   map tags_of proto_submissions = [[''__proto__''], [''__proto__'']] \<and>
   (case fetchCodeforcesStats (Inr (sample_bodies proto_submissions)) (Some ''ravisharma-09'') of
      Inr (Some stats) \<Rightarrow>
        tagStrengths stats = Sorted [] \<and>
        count_of (entries_of (tagStrengths stats)) ''__proto__'' = Tally 0 \<and>
        \<not> at_least 2 (count_of (entries_of (tagStrengths stats)) ''__proto__'') \<and>
        cf_activityCalendar stats = [(''2023-11-14'', Tally 2)] \<and>
        cf_totalProblemsSolved stats = 1
    | _ \<Rightarrow> False)"
  by code_simp

text \<open>
  Claim C10, amended: the tags that name no property of \<open>Object.prototype\<close>. In
  \<open>fetchCodeforcesStats\<close> the count of such a tag in \<open>tagStrengths\<close> is the number of its
  occurrences over all accepted submissions, whatever the other tags are, and the count
  of a day in \<open>activityCalendar\<close> is the number of accepted submissions of that day, while
  \<open>totalProblemsSolved\<close> is the number of distinct problem keys among them. So when two
  accepted submissions are to the same problem, each such tag of the problem is counted
  at least twice, their day (or two days) at least twice in total, and
  \<open>totalProblemsSolved\<close> is smaller than the number of accepted submissions.
\<close>

theorem fetchCodeforcesStats_counts_submissions:
  assumes "truthy_str handle" and "info_status bodies = ''OK''" and "status_status bodies = ''OK''"
    and "i < j" and "j < length (status_result bodies)"
    and "sub_problem (status_result bodies ! i) = Some p"
    and "sub_problem (status_result bodies ! j) = Some p"
    and "verdict (status_result bodies ! i) = ''OK''"
    and "verdict (status_result bodies ! j) = ''OK''"
  shows "\<exists>stats. fetchCodeforcesStats (Inr bodies) handle = Inr (Some stats) \<and>
     (\<forall>t. t \<notin> set proto_keys \<longrightarrow>
          count_of (entries_of (tagStrengths stats)) t
            = Tally (sum_list (map (\<lambda>s. count_list (tags_of s) t) (accepted (status_result bodies))))) \<and>
     (\<forall>t \<in> set (tags_of (status_result bodies ! i)).
          t \<notin> set proto_keys \<longrightarrow> at_least 2 (count_of (entries_of (tagStrengths stats)) t)) \<and>
     (\<forall>d. count_of (cf_activityCalendar stats) d
            = Tally (length (filter (\<lambda>s. day_of s = d) (accepted (status_result bodies))))) \<and>
     (if day_of (status_result bodies ! i) = day_of (status_result bodies ! j)
      then at_least 2 (count_of (cf_activityCalendar stats) (day_of (status_result bodies ! i)))
      else at_least 1 (count_of (cf_activityCalendar stats) (day_of (status_result bodies ! i))) \<and>
           at_least 1 (count_of (cf_activityCalendar stats) (day_of (status_result bodies ! j)))) \<and>
     cf_totalProblemsSolved stats = int (card (key_of ` set (accepted (status_result bodies)))) \<and>
     cf_totalProblemsSolved stats < int (length (accepted (status_result bodies)))"
proof -
  let ?subs = "status_result bodies"
  let ?st = "foldl cf_step cf_loop_init ?subs"
  let ?si = "?subs ! i" and ?sj = "?subs ! j"
  obtain stats where f: "fetchCodeforcesStats (Inr bodies) handle = Inr (Some stats)"
    and ts: "tagStrengths stats = sort_strengths (js_entries (tagCounts ?st))"
    and cal: "cf_activityCalendar stats = activityCalendar ?st"
    and tot: "cf_totalProblemsSolved stats = int (length (solvedSet ?st))"
    using assms(1-3) by (simp add: fetchCodeforcesStats_def Let_def)
  from two_positions [OF assms(4,5)] obtain xs ys zs where dec: "?subs = xs @ ?si # ys @ ?sj # zs"
    by blast
  have acc: "accepted ?subs = accepted xs @ ?si # accepted ys @ ?sj # accepted zs"
    by (subst dec) (simp add: accepted_def assms(6-9))
  have tags_same: "tags_of ?sj = tags_of ?si" and key_same: "key_of ?sj = key_of ?si"
    by (simp_all add: tags_of_def key_of_def assms(6,7))
  have d0: "distinct (map fst (tagCounts cf_loop_init))" by (simp add: cf_loop_init_def)
  have tag: "count_of (entries_of (tagStrengths stats)) t
              = Tally (sum_list (map (\<lambda>s. count_list (tags_of s) t) (accepted ?subs)))"
    if "t \<notin> set proto_keys" for t
  proof -
    have "count_of (tagCounts ?st) t = count_of (entries_of (tagStrengths stats)) t"
      unfolding ts
      by (rule count_of_perm)
         (simp_all add: mset_sort_strengths mset_js_entries loop_tagCounts_distinct [OF d0])
    moreover have "count_of (tagCounts cf_loop_init) t = Tally 0"
      by (simp add: cf_loop_init_def count_of_def)
    ultimately show ?thesis using loop_tagCounts [OF that, of cf_loop_init 0 ?subs] by simp
  qed
  have tag2: "at_least 2 (count_of (entries_of (tagStrengths stats)) t)"
    if "t \<in> set (tags_of ?si)" and "t \<notin> set proto_keys" for t
  proof -
    from that(1) have "1 \<le> count_list (tags_of ?si) t"
      by (metis count_list_0_iff not_less_eq_eq le_0_eq Suc_eq_plus1 add_0 linorder_le_cases)
    then show ?thesis by (simp add: tag [OF that(2)] acc tags_same)
  qed
  have day: "count_of (cf_activityCalendar stats) d
              = Tally (length (filter (\<lambda>s. day_of s = d) (accepted ?subs)))" for d
  proof -
    have "count_of (activityCalendar cf_loop_init) d = Tally 0"
      by (simp add: cf_loop_init_def count_of_def)
    from loop_activityCalendar [OF this, of ?subs] show ?thesis by (simp add: cal)
  qed
  have day2: "if day_of ?si = day_of ?sj
      then at_least 2 (count_of (cf_activityCalendar stats) (day_of ?si))
      else at_least 1 (count_of (cf_activityCalendar stats) (day_of ?si)) \<and>
           at_least 1 (count_of (cf_activityCalendar stats) (day_of ?sj))"
    by (simp add: day acc)
  have ss: "distinct (solvedSet ?st)" "set (solvedSet ?st) = key_of ` set (accepted ?subs)"
    using loop_solvedSet [of cf_loop_init ?subs] by (simp_all add: cf_loop_init_def)
  then have card: "cf_totalProblemsSolved stats = int (card (key_of ` set (accepted ?subs)))"
    by (metis tot distinct_card)
  have "\<not> distinct (map key_of (accepted ?subs))"
    by (simp add: acc key_same)
  then have "card (set (map key_of (accepted ?subs))) < length (map key_of (accepted ?subs))"
    by (metis card_distinct card_length le_neq_implies_less)
  then have less: "cf_totalProblemsSolved stats < int (length (accepted ?subs))"
    by (simp add: card)
  from f tag tag2 day day2 card less show ?thesis by blast
qed

theorem fetchCodeforcesStats_counts_submissions_witness:
  "truthy_str (Some ''ravisharma-09'') \<and>
   info_status (sample_bodies two_accepted) = ''OK'' \<and>
   status_status (sample_bodies two_accepted) = ''OK'' \<and>
   (0::nat) < 1 \<and> 1 < length (status_result (sample_bodies two_accepted)) \<and>
   sub_problem (status_result (sample_bodies two_accepted) ! 0) = Some (sample_problem 1) \<and>
   sub_problem (status_result (sample_bodies two_accepted) ! 1) = Some (sample_problem 1) \<and>
   verdict (status_result (sample_bodies two_accepted) ! 0) = ''OK'' \<and>
   verdict (status_result (sample_bodies two_accepted) ! 1) = ''OK'' \<and>
   tags_of (status_result (sample_bodies two_accepted) ! 0) = [''dp'', ''math''] \<and>
   ''dp'' \<notin> set proto_keys \<and> ''math'' \<notin> set proto_keys \<and>
   (\<exists>stats. fetchCodeforcesStats (Inr (sample_bodies two_accepted)) (Some ''ravisharma-09'') = Inr (Some stats) \<and>
      tagStrengths stats = Sorted [(''dp'', Tally 2), (''math'', Tally 2)] \<and>
      at_least 2 (count_of (entries_of (tagStrengths stats)) ''dp'') \<and>
      at_least 2 (count_of (entries_of (tagStrengths stats)) ''math'') \<and>
      cf_activityCalendar stats = [(''2023-11-14'', Tally 2)] \<and>
      cf_totalProblemsSolved stats = 1 \<and>
      cf_totalProblemsSolved stats < int (length (accepted (status_result (sample_bodies two_accepted)))))"
proof -
  have h: "truthy_str (Some ''ravisharma-09'')"
    "info_status (sample_bodies two_accepted) = ''OK''"
    "status_status (sample_bodies two_accepted) = ''OK''"
    "(0::nat) < 1" "1 < length (status_result (sample_bodies two_accepted))"
    "sub_problem (status_result (sample_bodies two_accepted) ! 0) = Some (sample_problem 1)"
    "sub_problem (status_result (sample_bodies two_accepted) ! 1) = Some (sample_problem 1)"
    "verdict (status_result (sample_bodies two_accepted) ! 0) = ''OK''"
    "verdict (status_result (sample_bodies two_accepted) ! 1) = ''OK''"
    by (simp_all add: truthy_str_def sample_bodies_def two_accepted_def sample_sub_def)
  have t: "tags_of (status_result (sample_bodies two_accepted) ! 0) = [''dp'', ''math'']"
    "''dp'' \<notin> set proto_keys" "''math'' \<notin> set proto_keys"
    by (simp_all add: tags_of_def sample_bodies_def two_accepted_def sample_sub_def sample_problem_def
        proto_keys_def)
  have "case fetchCodeforcesStats (Inr (sample_bodies two_accepted)) (Some ''ravisharma-09'') of
          Inr (Some stats) \<Rightarrow>
            tagStrengths stats = Sorted [(''dp'', Tally 2), (''math'', Tally 2)] \<and>
            cf_activityCalendar stats = [(''2023-11-14'', Tally 2)] \<and>
            cf_totalProblemsSolved stats = 1
        | _ \<Rightarrow> False"
    by code_simp
  then obtain stats where s: "fetchCodeforcesStats (Inr (sample_bodies two_accepted)) (Some ''ravisharma-09'') = Inr (Some stats)"
      "tagStrengths stats = Sorted [(''dp'', Tally 2), (''math'', Tally 2)]"
      "cf_activityCalendar stats = [(''2023-11-14'', Tally 2)]"
      "cf_totalProblemsSolved stats = 1"
    by (auto split: sum.splits option.splits)
  from fetchCodeforcesStats_counts_submissions [OF h] s h t show ?thesis
    by auto
qed


section \<open>Properties of the leaderboard cache\<close>

lemma call_while_updating: "isUpdating (cache s) \<Longrightarrow> call s users = s"
  by (simp add: call_def)

lemma single_flight_call: "single_flight s \<Longrightarrow> single_flight (call s users)"
  by (auto simp: single_flight_def call_def)

lemma single_flight_step: "single_flight s \<Longrightarrow> single_flight (step s e)"
proof (cases e)
  case (Call users)
  assume "single_flight s"
  with Call show ?thesis by (simp add: single_flight_call)
next
  case (Get now users)
  assume "single_flight s"
  with Get show ?thesis by (simp add: single_flight_call)
next
  case (Visit k api)
  assume "single_flight s"
  with Visit show ?thesis
    by (auto simp: single_flight_def split: list.splits)
next
  case (Finish k now)
  assume "single_flight s"
  with Finish show ?thesis
    by (cases "running s") (auto simp: single_flight_def)
qed

lemma single_flight_run: "single_flight s \<Longrightarrow> single_flight (run s evs)"
  unfolding run_def by (induction evs arbitrary: s) (simp_all add: single_flight_step)

lemma single_flight_start: "single_flight server_start"
  by (simp add: single_flight_def server_start_def leaderboardCache_def)

lemma pass_in_flight:
  assumes "running s = [p]" and "isUpdating (cache s)" and "\<forall>e \<in> set evs. \<not> is_finish e"
  shows "cache (run s evs) = cache s \<and>
         running (run s evs) = [\<lparr>pending = drop (length (visits_of 0 evs)) (pending p),
                                  results = collect (visits_of 0 evs) (pending p) (results p)\<rparr>]"
  using assms
proof (induction evs arbitrary: s p)
  case Nil
  then show ?case by (simp add: run_def)
next
  case (Cons e evs)
  have rest: "\<forall>e \<in> set evs. \<not> is_finish e" using Cons.prems(3) by simp
  show ?case
  proof (cases e)
    case (Call users)
    then have "step s e = s" using Cons.prems(2) by (simp add: call_while_updating)
    with Cons.IH [OF Cons.prems(1,2) rest] Call show ?thesis by (simp add: run_def)
  next
    case (Get now users)
    then have "step s e = s" using Cons.prems(2) by (simp add: call_while_updating)
    with Cons.IH [OF Cons.prems(1,2) rest] Get show ?thesis by (simp add: run_def)
  next
    case (Finish k now)
    with Cons.prems(3) show ?thesis by simp
  next
    case (Visit k api)
    show ?thesis
    proof (cases "k = 0")
      case False
      then have "step s e = s" using Visit Cons.prems(1) by simp
      with Cons.IH [OF Cons.prems(1,2) rest] Visit False show ?thesis by (simp add: run_def)
    next
      case True
      show ?thesis
      proof (cases "pending p")
        case Nil
        then have "step s e = s" using Visit True Cons.prems(1) by simp
        with Cons.IH [OF Cons.prems(1,2) rest] Visit True Nil show ?thesis by (simp add: run_def)
      next
        case (Cons u us)
        let ?p = "\<lparr>pending = us, results = visit api u (results p)\<rparr>"
        have r: "running (step s e) = [?p]" and c: "cache (step s e) = cache s"
          using Visit True Cons Cons.prems(1) by simp_all
        from c Cons.prems(2) have "isUpdating (cache (step s e))" by simp
        from Cons.IH [OF r this rest] c Visit True Cons show ?thesis by (simp add: run_def)
      qed
    qed
  qed
qed

lemma compare_rows_le: "compare_rows a b \<le> 0 \<longleftrightarrow> ranks_before a b"
  by (auto simp: compare_rows_def ranks_before_def)

lemma ranks_before_total: "\<not> ranks_before a b \<Longrightarrow> ranks_before b a"
  by (auto simp: ranks_before_def)

lemma ranks_before_trans: "ranks_before a b \<Longrightarrow> ranks_before b c \<Longrightarrow> ranks_before a c"
  by (auto simp: ranks_before_def)

lemma set_insort_cmp: "set (insort_cmp cmp x ys) = insert x (set ys)"
  by (induction ys) auto

lemma sorted_insort_rows:
  "sorted_wrt ranks_before ys \<Longrightarrow> sorted_wrt ranks_before (insort_cmp compare_rows x ys)"
proof (induction ys)
  case Nil
  then show ?case by simp
next
  case (Cons y ys)
  show ?case
  proof (cases "compare_rows x y \<le> 0")
    case True
    then have "ranks_before x y" by (simp add: compare_rows_le)
    with Cons.prems show ?thesis
      using True by (auto intro: ranks_before_trans)
  next
    case False
    then have "ranks_before y x" by (simp add: compare_rows_le ranks_before_total)
    with Cons show ?thesis
      using False by (auto simp: set_insort_cmp)
  qed
qed

lemma sorted_js_sort_rows: "sorted_wrt ranks_before (js_sort compare_rows xs)"
  by (induction xs) (simp_all add: js_sort_def sorted_insort_rows)

text \<open>
  Claim C4. While \<open>isUpdating\<close> is set, a call of \<open>updateGlobalLeaderboard\<close>, from the
  timer or from the route, leaves the whole server state as it is: no pass starts and no
  fetch is made. In every state reachable from start-up at most one pass is in flight. And
  when the flag is set there is exactly one pass; whatever triggers arrive while it visits
  its users, the cache stays as it was, and when the pass completes the cache holds the
  collected rows sorted by rating, then solved count, both descending, \<open>lastUpdated\<close> is
  the completion time, and \<open>isUpdating\<close> is false again.
\<close>

theorem leaderboard_single_flight:
  "(isUpdating (cache s) \<longrightarrow>
      step s (Call users) = s \<and> step s (Get now users) = s) \<and>
   length (running (run server_start evs)) \<le> 1 \<and>
   (isUpdating (cache (run server_start evs)) \<longrightarrow>
      (\<exists>p. running (run server_start evs) = [p] \<and>
        (\<forall>later stamp.
           (\<forall>e \<in> set later. \<not> is_finish e) \<and> length (visits_of 0 later) = length (pending p) \<longrightarrow>
             cache (run (run server_start evs) later) = cache (run server_start evs) \<and>
             cache (run (run server_start evs) (later @ [Finish 0 stamp]))
               = \<lparr>lb_data = js_sort compare_rows (collect (visits_of 0 later) (pending p) (results p)),
                  lastUpdated = stamp, isUpdating = False\<rparr> \<and>
             running (run (run server_start evs) (later @ [Finish 0 stamp])) = [] \<and>
             sorted_wrt ranks_before (lb_data (cache (run (run server_start evs) (later @ [Finish 0 stamp])))) \<and>
             mset (lb_data (cache (run (run server_start evs) (later @ [Finish 0 stamp]))))
               = mset (collect (visits_of 0 later) (pending p) (results p)))))"
proof (intro conjI impI)
  assume "isUpdating (cache s)"
  then show "step s (Call users) = s" and "step s (Get now users) = s"
    by (simp_all add: call_while_updating)
next
  let ?s = "run server_start evs"
  have sf: "single_flight ?s"
    by (rule single_flight_run) (rule single_flight_start)
  then show "length (running ?s) \<le> 1" by (simp add: single_flight_def)
  assume up: "isUpdating (cache ?s)"
  with sf obtain p where p: "running ?s = [p]"
    by (cases "running ?s") (auto simp: single_flight_def)
  have "cache (run ?s later) = cache ?s \<and>
        cache (run ?s (later @ [Finish 0 stamp]))
          = \<lparr>lb_data = js_sort compare_rows (collect (visits_of 0 later) (pending p) (results p)),
             lastUpdated = stamp, isUpdating = False\<rparr> \<and>
        running (run ?s (later @ [Finish 0 stamp])) = [] \<and>
        sorted_wrt ranks_before (lb_data (cache (run ?s (later @ [Finish 0 stamp])))) \<and>
        mset (lb_data (cache (run ?s (later @ [Finish 0 stamp]))))
          = mset (collect (visits_of 0 later) (pending p) (results p))"
    if nf: "\<forall>e \<in> set later. \<not> is_finish e" and n: "length (visits_of 0 later) = length (pending p)"
    for later stamp
  proof -
    from pass_in_flight [OF p up nf]
    have c: "cache (run ?s later) = cache ?s"
      and r: "running (run ?s later) = [\<lparr>pending = drop (length (visits_of 0 later)) (pending p),
                                  results = collect (visits_of 0 later) (pending p) (results p)\<rparr>]"
      by simp_all
    have fin: "run ?s (later @ [Finish 0 stamp]) = step (run ?s later) (Finish 0 stamp)"
      by (simp add: run_def)
    have c2: "cache (run ?s (later @ [Finish 0 stamp]))
          = \<lparr>lb_data = js_sort compare_rows (collect (visits_of 0 later) (pending p) (results p)),
             lastUpdated = stamp, isUpdating = False\<rparr>"
      by (simp add: fin r n)
    have r2: "running (run ?s (later @ [Finish 0 stamp])) = []"
      by (simp add: fin r n)
    from c c2 r2 show ?thesis
      by (simp add: sorted_js_sort_rows mset_js_sort)
  qed
  with p show "\<exists>p. running ?s = [p] \<and>
        (\<forall>later stamp.
           (\<forall>e \<in> set later. \<not> is_finish e) \<and> length (visits_of 0 later) = length (pending p) \<longrightarrow>
             cache (run ?s later) = cache ?s \<and>
             cache (run ?s (later @ [Finish 0 stamp]))
               = \<lparr>lb_data = js_sort compare_rows (collect (visits_of 0 later) (pending p) (results p)),
                  lastUpdated = stamp, isUpdating = False\<rparr> \<and>
             running (run ?s (later @ [Finish 0 stamp])) = [] \<and>
             sorted_wrt ranks_before (lb_data (cache (run ?s (later @ [Finish 0 stamp])))) \<and>
             mset (lb_data (cache (run ?s (later @ [Finish 0 stamp]))))
               = mset (collect (visits_of 0 later) (pending p) (results p)))"
    by blast
qed

lemmas leaderboard_eval = run_def sample_users_def sample_trace_def server_start_def leaderboardCache_def
  call_def sample_user_def truthy_str_def visit_def rated_bodies_def fetchCodeforcesStats_def
  stats_row_def error_row_def js_sort_def compare_rows_def show_str_def Let_def
  two_accepted_def sample_sub_def sample_problem_def cf_loop_init_def cf_step_def set_add_def
  problemKey_def num_to_string_def nat_to_string_digit nat_to_string_more digit_char_def

lemma run_append: "run (run s evs) later = run s (evs @ later)"
  by (simp add: run_def)

theorem leaderboard_single_flight_witness:
  "isUpdating (cache (run server_start [Call sample_users])) \<and>
   step (run server_start [Call sample_users]) (Call sample_users) = run server_start [Call sample_users] \<and>
   step (run server_start [Call sample_users]) (Get 1735689650000 sample_users)
     = run server_start [Call sample_users] \<and>
   length (running (run server_start [Call sample_users])) \<le> 1 \<and>
   running (run server_start [Call sample_users]) = [\<lparr>pending = sample_users, results = []\<rparr>] \<and>
   filter is_finish sample_trace = [] \<and>
   length (visits_of 0 sample_trace) = length sample_users \<and>
   cache (run server_start ([Call sample_users] @ sample_trace)) = cache (run server_start [Call sample_users]) \<and>
   map userId (lb_data (cache (run server_start ([Call sample_users] @ sample_trace @ [Finish 0 1735689700000]))))
     = [3, 1, 2] \<and>
   lastUpdated (cache (run server_start ([Call sample_users] @ sample_trace @ [Finish 0 1735689700000])))
     = 1735689700000 \<and>
   \<not> isUpdating (cache (run server_start ([Call sample_users] @ sample_trace @ [Finish 0 1735689700000]))) \<and>
   fetches (run server_start ([Call sample_users] @ sample_trace @ [Finish 0 1735689700000])) = 3 \<and>
   sorted_wrt ranks_before
     (lb_data (cache (run server_start ([Call sample_users] @ sample_trace @ [Finish 0 1735689700000]))))"
proof -
  let ?s = "run server_start [Call sample_users]"
  have up: "isUpdating (cache ?s)"
    and r: "running ?s = [\<lparr>pending = sample_users, results = []\<rparr>]"
    by (simp_all add: run_def call_def server_start_def leaderboardCache_def)
  have nf: "\<forall>e \<in> set sample_trace. \<not> is_finish e"
    and n: "length (visits_of 0 sample_trace) = length sample_users"
    by (simp_all add: sample_trace_def sample_users_def)
  have e: "map userId (lb_data (cache (run server_start ([Call sample_users] @ sample_trace @ [Finish 0 1735689700000]))))
             = [3, 1, 2]"
    "fetches (run server_start ([Call sample_users] @ sample_trace @ [Finish 0 1735689700000])) = 3"
    by (simp_all add: leaderboard_eval)
  note T = leaderboard_single_flight [of ?s sample_users 1735689650000 "[Call sample_users]"]
  from T up have g: "step ?s (Call sample_users) = ?s" "step ?s (Get 1735689650000 sample_users) = ?s"
    by blast+
  from T have len: "length (running ?s) \<le> 1"
    by blast
  from T up obtain p where p: "running ?s = [p]"
    and a: "\<forall>later stamp.
           (\<forall>e \<in> set later. \<not> is_finish e) \<and> length (visits_of 0 later) = length (pending p) \<longrightarrow>
             cache (run ?s later) = cache ?s \<and>
             cache (run ?s (later @ [Finish 0 stamp]))
               = \<lparr>lb_data = js_sort compare_rows (collect (visits_of 0 later) (pending p) (results p)),
                  lastUpdated = stamp, isUpdating = False\<rparr> \<and>
             running (run ?s (later @ [Finish 0 stamp])) = [] \<and>
             sorted_wrt ranks_before (lb_data (cache (run ?s (later @ [Finish 0 stamp])))) \<and>
             mset (lb_data (cache (run ?s (later @ [Finish 0 stamp]))))
               = mset (collect (visits_of 0 later) (pending p) (results p))"
    by blast
  from p r have "p = \<lparr>pending = sample_users, results = []\<rparr>" by simp
  then have pp: "pending p = sample_users" by simp
  have pre: "(\<forall>e \<in> set sample_trace. \<not> is_finish e) \<and> length (visits_of 0 sample_trace) = length (pending p)"
    using nf n pp by simp
  note b = a [rule_format, OF pre, of 1735689700000]
  have c1: "cache (run ?s sample_trace) = cache ?s"
    by (rule b [THEN conjunct1])
  have c2: "cache (run ?s (sample_trace @ [Finish 0 1735689700000]))
          = \<lparr>lb_data = js_sort compare_rows (collect (visits_of 0 sample_trace) (pending p) (results p)),
             lastUpdated = 1735689700000, isUpdating = False\<rparr>"
    by (rule b [THEN conjunct2, THEN conjunct1])
  have c3: "sorted_wrt ranks_before (lb_data (cache (run ?s (sample_trace @ [Finish 0 1735689700000]))))"
    by (rule b [THEN conjunct2, THEN conjunct2, THEN conjunct2, THEN conjunct1])
  have c4: "lastUpdated (cache (run ?s (sample_trace @ [Finish 0 1735689700000]))) = 1735689700000"
    "\<not> isUpdating (cache (run ?s (sample_trace @ [Finish 0 1735689700000])))"
    by (simp_all add: c2)
  have nf': "filter is_finish sample_trace = []"
    using nf by (simp add: filter_empty_conv)
  from up r nf' n e g len c1 c3 c4 show ?thesis
    by (simp add: run_append)
qed


section \<open>Properties of the recommendations\<close>

lemma is_candidate_band:
  assumes "is_candidate lo hi solvedIds p"
  shows "\<exists>r. p_rating p = Some r \<and> lo \<le> r \<and> r \<le> hi \<and> pid (contestId p) (p_index p) \<notin> solvedIds"
  using assms by (auto simp: is_candidate_def split: option.splits if_splits)

text \<open>
  Claim C6. For every Codeforces statistics object, with the current rating \<open>r\<close> taken
  as 800 when the rating history is empty, \<open>getRecommendations\<close> returns at most 5
  problems, each with a rating in \<open>[max 800 (r + 100), min 3500 (r + 400)]\<close> and with a
  \<open>contestId-index\<close> key outside the user's solved problems. The random sort is taken to
  return its input in some order.
\<close>

theorem getRecommendations_band:
  assumes "\<forall>xs. mset (shuffle env xs) = mset xs"
  shows "currentRating s = (if ratingHistory s = [] then 800 else re_rating (last (ratingHistory s))) \<and>
         length (fst (getRecommendations env (Some (Codeforces s)) c)) \<le> 5 \<and>
         (\<forall>x \<in> set (fst (getRecommendations env (Some (Codeforces s)) c)).
            \<exists>r. rec_rating x = Some r \<and>
                max 800 (currentRating s + 100) \<le> r \<and> r \<le> min 3500 (currentRating s + 400) \<and>
                pid (rec_contestId x) (rec_index x) \<notin> sp_id ` set (cf_solvedProblems s))"
proof (intro conjI ballI)
  let ?lo = "max 800 (currentRating s + 100)" and ?hi = "min 3500 (currentRating s + 400)"
  let ?ids = "set (map sp_id (cf_solvedProblems s))"
  let ?cands = "filter (is_candidate ?lo ?hi ?ids) (fst (getProblemSet env c))"
  have recs: "fst (getRecommendations env (Some (Codeforces s)) c)
              = map to_recommendation (take 5 (shuffle env ?cands))"
    by (simp add: getRecommendations_def Let_def split: prod.splits)
  show "currentRating s = (if ratingHistory s = [] then 800 else re_rating (last (ratingHistory s)))"
    by (simp add: currentRating_def)
  show "length (fst (getRecommendations env (Some (Codeforces s)) c)) \<le> 5"
    by (simp add: recs)
  fix x assume "x \<in> set (fst (getRecommendations env (Some (Codeforces s)) c))"
  then obtain p where p: "p \<in> set (take 5 (shuffle env ?cands))" and x: "x = to_recommendation p"
    by (auto simp: recs)
  from p have "p \<in> set (shuffle env ?cands)" by (rule in_set_takeD)
  then have "p \<in> set ?cands" using assms by (metis set_mset_mset)
  then have "is_candidate ?lo ?hi ?ids p" by simp
  from is_candidate_band [OF this] x
  show "\<exists>r. rec_rating x = Some r \<and> ?lo \<le> r \<and> r \<le> ?hi \<and>
            pid (rec_contestId x) (rec_index x) \<notin> sp_id ` set (cf_solvedProblems s)"
    by (auto simp: to_recommendation_def)
qed

theorem getRecommendations_band_witness:
  "(\<forall>xs. mset (shuffle sample_rec_env xs) = mset xs) \<and>
   currentRating sample_stats = 1200 \<and>
   map rec_contestId (fst (getRecommendations sample_rec_env (Some (Codeforces sample_stats)) problemSetCache))
     = [Some 11, Some 10, Some 9, Some 8, Some 7] \<and>
   map rec_rating (fst (getRecommendations sample_rec_env (Some (Codeforces sample_stats)) problemSetCache))
     = [Some 1550, Some 1450, Some 1350, Some 1600, Some 1500] \<and>
   length (fst (getRecommendations sample_rec_env (Some (Codeforces sample_stats)) problemSetCache)) \<le> 5 \<and>
   list_all (\<lambda>x. \<exists>r. rec_rating x = Some r \<and> 1300 \<le> r \<and> r \<le> 1600 \<and>
                   pid (rec_contestId x) (rec_index x) \<notin> sp_id ` set (cf_solvedProblems sample_stats))
     (fst (getRecommendations sample_rec_env (Some (Codeforces sample_stats)) problemSetCache))"
proof -
  have h: "\<forall>xs. mset (shuffle sample_rec_env xs) = mset xs"
    by (simp add: sample_rec_env_def)
  have r: "currentRating sample_stats = 1200"
    by (simp add: currentRating_def sample_stats_def)
  have ps: "getProblemSet sample_rec_env problemSetCache
              = (sample_catalog, \<lparr>ps_problems = sample_catalog, ps_lastUpdated = 1735689600500\<rparr>)"
    by (simp add: getProblemSet_def sample_rec_env_def problemSetCache_def)
  have ids: "sp_id ` set (cf_solvedProblems sample_stats) = {''1-A''}"
    by (simp add: sample_stats_def)
  have cands: "filter (is_candidate 1300 1600 {''1-A''}) sample_catalog
                = [catalog_problem 2 (Some 1400), catalog_problem 6 (Some 1300), catalog_problem 7 (Some 1500),
                   catalog_problem 8 (Some 1600), catalog_problem 9 (Some 1350), catalog_problem 10 (Some 1450),
                   catalog_problem 11 (Some 1550)]"
    by (simp add: sample_catalog_def catalog_problem_def sample_problem_def pid_def show_num_def show_str_def
          num_to_string_def nat_to_string_digit nat_to_string_more digit_char_def is_candidate_def)
  have sh: "shuffle sample_rec_env = rev"
    by (simp add: sample_rec_env_def)
  have recs: "fst (getRecommendations sample_rec_env (Some (Codeforces sample_stats)) problemSetCache)
               = map to_recommendation
                   [catalog_problem 11 (Some 1550), catalog_problem 10 (Some 1450), catalog_problem 9 (Some 1350),
                    catalog_problem 8 (Some 1600), catalog_problem 7 (Some 1500)]"
    by (simp add: getRecommendations_def r ps ids cands sh)
  have e: "map rec_contestId (fst (getRecommendations sample_rec_env (Some (Codeforces sample_stats)) problemSetCache))
             = [Some 11, Some 10, Some 9, Some 8, Some 7]"
    "map rec_rating (fst (getRecommendations sample_rec_env (Some (Codeforces sample_stats)) problemSetCache))
             = [Some 1550, Some 1450, Some 1350, Some 1600, Some 1500]"
    by (simp_all add: recs to_recommendation_def catalog_problem_def sample_problem_def)
  from getRecommendations_band [OF h, of sample_stats problemSetCache] h r e show ?thesis
    by (simp add: list_all_iff)
qed

end
